theory Spec2Isabelle
  imports Complex_Main "HOL-Library.Word" "HOL-Library.Log_Nat"
begin

section \<open>JavaScript strings\<close>

text \<open>
  A JavaScript string is a sequence of UTF-16 code units; \<open>length\<close>, the regular
  expressions without the \<open>u\<close> flag and \<open>split\<close> all work on code units.
  \<open>utf16\<close> turns a Latin-1 literal into such a sequence.
\<close>

type_synonym jschar = "16 word"
type_synonym jsstring = "jschar list"

definition utf16 :: "string \<Rightarrow> jsstring" where
  "utf16 s = map of_char s"

text \<open>
  The class \<open>\s\<close> of a regular expression, which is also the set of code units that
  \<open>trim\<close> strips: WhiteSpace (TAB, VT, FF, SP, NBSP, ZWNBSP and the space separators
  U+1680, U+2000..U+200A, U+202F, U+205F, U+3000) and LineTerminator (LF, CR, U+2028,
  U+2029).
\<close>

definition isSpace :: "jschar \<Rightarrow> bool" where
  "isSpace c \<longleftrightarrow>
     c = 0x09 \<or> c = 0x0A \<or> c = 0x0B \<or> c = 0x0C \<or> c = 0x0D \<or> c = 0x20 \<or> c = 0xA0 \<or>
     c = 0x1680 \<or> (0x2000 \<le> c \<and> c \<le> 0x200A) \<or> c = 0x2028 \<or> c = 0x2029 \<or>
     c = 0x202F \<or> c = 0x205F \<or> c = 0x3000 \<or> c = 0xFEFF"

text \<open>The class \<open>[a-z]\<close>.\<close>

definition isLower :: "jschar \<Rightarrow> bool" where
  "isLower c \<longleftrightarrow> 0x61 \<le> c \<and> c \<le> 0x7A"

text \<open>The class \<open>[aeiouy]\<close>.\<close>

definition isVowel :: "jschar \<Rightarrow> bool" where
  "isVowel c \<longleftrightarrow> c = 0x61 \<or> c = 0x65 \<or> c = 0x69 \<or> c = 0x6F \<or> c = 0x75 \<or> c = 0x79"

text \<open>
  \<open>String.prototype.toLowerCase\<close>, one code unit at a time. The Unicode lower-case
  mapping sends exactly these code points into the ASCII range: \<open>A\<close>..\<open>Z\<close>, the
  Kelvin sign U+212A (to \<open>k\<close>) and U+0130 (to \<open>i\<close> followed by the combining dot
  U+0307). Every other code point is mapped outside ASCII; the functions below only
  look at ASCII code units of the lower-cased text, so those code units are left as
  they are.
\<close>

definition lowerUnit :: "jschar \<Rightarrow> jsstring" where
  "lowerUnit c =
     (if 0x41 \<le> c \<and> c \<le> 0x5A then [c + 0x20]
      else if c = 0x212A then [0x6B]
      else if c = 0x0130 then [0x69, 0x0307]
      else [c])"

definition toLowerCase :: "jsstring \<Rightarrow> jsstring" where
  "toLowerCase s = concat (map lowerUnit s)"

section \<open>Tokenizer and normalizer\<close>

text \<open>\<open>String.prototype.trim\<close>.\<close>

definition trim :: "jsstring \<Rightarrow> jsstring" where
  "trim s = rev (dropWhile isSpace (rev (dropWhile isSpace s)))"

text \<open>\<open>s.replace(/\s+/g, ' ')\<close>: every maximal run of white space becomes one space.\<close>

function collapseSpaces :: "jsstring \<Rightarrow> jsstring" where
  "collapseSpaces [] = []"
| "collapseSpaces (c # cs) =
     (if isSpace c then 0x20 # collapseSpaces (dropWhile isSpace cs)
      else c # collapseSpaces cs)"
  by pat_completeness auto
termination
  by (relation "measure length") (auto simp: less_Suc_eq_le length_dropWhile_le)

text \<open>\<open>s.replace(/\s/g, '')\<close>.\<close>

definition removeSpaces :: "jsstring \<Rightarrow> jsstring" where
  "removeSpaces s = filter (\<lambda>c. \<not> isSpace c) s"

text \<open>
  \<open>s.split(/\s+/)\<close>. \<open>splitSpaces cur s\<close> holds in \<open>cur\<close> the piece read so far; a
  separator at the very start or end leaves an empty piece, and the empty string
  splits into one empty piece, as in JavaScript.
\<close>

function splitSpaces :: "jsstring \<Rightarrow> jsstring \<Rightarrow> jsstring list" where
  "splitSpaces cur [] = [cur]"
| "splitSpaces cur (c # cs) =
     (if isSpace c then cur # splitSpaces [] (dropWhile isSpace cs)
      else splitSpaces (cur @ [c]) cs)"
  by pat_completeness auto
termination
  by (relation "measure (\<lambda>(cur, s). length s)") (auto simp: less_Suc_eq_le length_dropWhile_le)

text \<open>The class \<open>[.!?]\<close>.\<close>

definition isTerminator :: "jschar \<Rightarrow> bool" where
  "isTerminator c \<longleftrightarrow> c = 0x2E \<or> c = 0x21 \<or> c = 0x3F"

text \<open>
  One attempt to match \<open>/[.!?]+(\s|$)/\<close> at the start of \<open>s\<close>: the match and the
  text behind it. The greedy \<open>+\<close> takes the whole run of terminators; giving
  terminators back cannot help, since the code unit after a shorter run is a
  terminator, which is neither white space nor the end of the string.
\<close>

definition sentenceEndAt :: "jsstring \<Rightarrow> (jsstring \<times> jsstring) option" where
  "sentenceEndAt s =
     (let run = takeWhile isTerminator s; rest = dropWhile isTerminator s in
      if run = [] then None
      else case rest of
             [] \<Rightarrow> Some (run, [])
           | d # ds \<Rightarrow> if isSpace d then Some (run @ [d], ds) else None)"

lemma sentenceEndAt_shorter:
  "sentenceEndAt s = Some (m, rest) \<Longrightarrow> length rest < length s"
proof -
  assume a: "sentenceEndAt s = Some (m, rest)"
  have len: "length (dropWhile isTerminator s) \<le> length s"
    by (rule length_dropWhile_le)
  have run: "takeWhile isTerminator s \<noteq> [] \<Longrightarrow> length (dropWhile isTerminator s) < length s"
    by (cases s) (auto simp: less_Suc_eq_le length_dropWhile_le split: if_splits)
  from a show ?thesis
    using len run
    by (auto simp: sentenceEndAt_def Let_def split: if_splits list.splits)
qed

text \<open>
  The matches of \<open>/[.!?]+(\s|$)/g\<close>, left to right: after a match the search goes on
  behind it, after a failed attempt one code unit further.
\<close>

function sentenceEnds :: "jsstring \<Rightarrow> jsstring list" where
  "sentenceEnds [] = []"
| "sentenceEnds (c # cs) =
     (case sentenceEndAt (c # cs) of
        Some (m, rest) \<Rightarrow> m # sentenceEnds rest
      | None \<Rightarrow> sentenceEnds cs)"
  by pat_completeness auto
termination
  by (relation "measure length") (auto dest: sentenceEndAt_shorter)

text \<open>\<open>s.match(/[.!?]+(\s|$)/g)\<close>, \<open>null\<close> when nothing matches.\<close>

definition matchSentenceEnds :: "jsstring \<Rightarrow> jsstring list option" where
  "matchSentenceEnds s = (let ms = sentenceEnds s in if ms = [] then None else Some ms)"

text \<open>\<open>m || []\<close> for the result of \<open>match\<close>.\<close>

definition orEmpty :: "'a list option \<Rightarrow> 'a list" where
  "orEmpty m = (case m of Some ms \<Rightarrow> ms | None \<Rightarrow> [])"

text \<open>
  One attempt to match \<open>/\n\s*\n/\<close> at the start of \<open>s\<close>: the text behind the match.
  After the first line feed the greedy \<open>\s*\<close> takes the whole run of white space and
  gives code units back until a line feed follows, so the match ends behind the last
  line feed of that run.
\<close>

definition paragraphBreakAt :: "jsstring \<Rightarrow> jsstring option" where
  "paragraphBreakAt s =
     (case s of
        [] \<Rightarrow> None
      | c # cs \<Rightarrow>
          if c \<noteq> 0x0A then None
          else
            let ws = takeWhile isSpace cs; rest = dropWhile isSpace cs in
            if 0x0A \<in> set ws
            then Some (rev (takeWhile (\<lambda>d. d \<noteq> 0x0A) (rev ws)) @ rest)
            else None)"

lemma paragraphBreakAt_shorter:
  "paragraphBreakAt s = Some rest \<Longrightarrow> length rest < length s"
proof -
  assume a: "paragraphBreakAt s = Some rest"
  then obtain c cs where s: "s = c # cs" by (cases s) (auto simp: paragraphBreakAt_def)
  have "length (rev (takeWhile (\<lambda>d. d \<noteq> 0x0A) (rev (takeWhile isSpace cs))))
        \<le> length (takeWhile isSpace cs)"
    using length_takeWhile_le [of "\<lambda>d. d \<noteq> 0x0A" "rev (takeWhile isSpace cs)"] by simp
  moreover have "length (takeWhile isSpace cs) + length (dropWhile isSpace cs) = length cs"
    using takeWhile_dropWhile_id [of isSpace cs] length_append by metis
  ultimately show ?thesis
    using a s by (auto simp: paragraphBreakAt_def Let_def split: if_splits)
qed

text \<open>\<open>s.split(/\n\s*\n/)\<close>, with the piece read so far in \<open>cur\<close>.\<close>

function splitParagraphs :: "jsstring \<Rightarrow> jsstring \<Rightarrow> jsstring list" where
  "splitParagraphs cur [] = [cur]"
| "splitParagraphs cur (c # cs) =
     (case paragraphBreakAt (c # cs) of
        Some rest \<Rightarrow> cur # splitParagraphs [] rest
      | None \<Rightarrow> splitParagraphs (cur @ [c]) cs)"
  by pat_completeness auto
termination
  by (relation "measure (\<lambda>(cur, s). length s)") (auto dest: paragraphBreakAt_shorter)

text \<open>The normalisation \<open>text.replace(/\s+/g, ' ').trim()\<close> both analyses start with.\<close>

definition normalizeText :: "jsstring \<Rightarrow> jsstring" where
  "normalizeText text = trim (collapseSpaces text)"

section \<open>Numbers\<close>

text \<open>
  A JavaScript number is an IEEE 754 binary64 value. The finite ones are rationals, and
  the model keeps each as its exact rational value; every arithmetic operation rounds
  the exact result to the nearest value with a 53-bit significand, ties to the even
  significand. The exponent range is left unbounded: the quotients, products and
  differences formed from the lengths of a JavaScript string (below \<open>2^53\<close>) are zero
  or between \<open>2^-1022\<close> and \<open>2^1024\<close> in magnitude.
\<close>

type_synonym number = rat

definition tiesToEven :: "rat \<Rightarrow> int" where
  "tiesToEven x =
     (let f = \<lfloor>x\<rfloor>; d = x - of_int f in
      if d < 1 / 2 then f else if 1 / 2 < d then f + 1 else if even f then f else f + 1)"

text \<open>For \<open>x > 0\<close>, the exponent \<open>e\<close> with \<open>2^e \<le> x < 2^(e+1)\<close>.\<close>

definition binaryExponent :: "rat \<Rightarrow> int" where
  "binaryExponent x =
     (let (p, q) = quotient_of x; k = bitlen p - bitlen q in
      if power_int 2 k \<le> x then k else k - 1)"

definition toDouble :: "rat \<Rightarrow> number" where
  "toDouble x =
     (if x = 0 then 0
      else
        let a = \<bar>x\<bar>; ulp = power_int 2 (binaryExponent a - 52) in
        sgn x * of_int (tiesToEven (a / ulp)) * ulp)"

definition fadd :: "number \<Rightarrow> number \<Rightarrow> number" where
  "fadd a b = toDouble (a + b)"

definition fsub :: "number \<Rightarrow> number \<Rightarrow> number" where
  "fsub a b = toDouble (a - b)"

definition fmul :: "number \<Rightarrow> number \<Rightarrow> number" where
  "fmul a b = toDouble (a * b)"

text \<open>The quotient \<open>a / b\<close> for a divisor that is not zero.\<close>

definition fdiv :: "number \<Rightarrow> number \<Rightarrow> number" where
  "fdiv a b = toDouble (a / b)"

text \<open>
  A zero divisor makes a JavaScript quotient \<open>Infinity\<close>, \<open>-Infinity\<close> or \<open>NaN\<close>, which
  are not rationals: \<open>divide\<close> reports that outcome as an error value.
\<close>

datatype error = DivisionByZero

definition divide :: "number \<Rightarrow> number \<Rightarrow> error + number" where
  "divide a b = (if b = 0 then Inl DivisionByZero else Inr (fdiv a b))"

definition andThen :: "error + 'a \<Rightarrow> ('a \<Rightarrow> error + 'b) \<Rightarrow> error + 'b" where
  "andThen r f = (case r of Inl e \<Rightarrow> Inl e | Inr v \<Rightarrow> f v)"

text \<open>A decimal literal \<open>p / 10^k\<close> of the source is the nearest number.\<close>

definition literal :: "int \<Rightarrow> nat \<Rightarrow> number" where
  "literal p k = toDouble (of_int p / 10 ^ k)"

definition Math_max :: "number \<Rightarrow> number \<Rightarrow> number" where
  "Math_max a b = max a b"

definition Math_min :: "number \<Rightarrow> number \<Rightarrow> number" where
  "Math_min a b = min a b"

definition Math_ceil :: "number \<Rightarrow> number" where
  "Math_ceil x = of_int \<lceil>x\<rceil>"

text \<open>
  \<open>+x.toFixed(d)\<close>. \<open>toFixed\<close> works on the exact value of \<open>x\<close>: for \<open>|x| < 10^21\<close>
  it prints the integer \<open>n\<close> for which \<open>n / 10^d\<close> is nearest to \<open>|x|\<close> (the larger
  one of two), with the sign of \<open>x\<close> and the decimal point put in; above that it prints
  \<open>x\<close> itself. The unary plus reads the digits back as the nearest number.
\<close>

definition toFixedNumber :: "nat \<Rightarrow> number \<Rightarrow> number" where
  "toFixedNumber d x =
     (if 10 ^ 21 \<le> \<bar>x\<bar> then x
      else
        let n = \<lfloor>\<bar>x\<bar> * 10 ^ d + 1 / 2\<rfloor> in
        toDouble (sgn x * of_int n / 10 ^ d))"

section \<open>Content statistics\<close>

record ContentStats =
  characters :: nat
  charactersNoSpaces :: nat
  words :: nat
  sentences :: nat
  paragraphs :: nat
  readingTimeMin :: number

text \<open>
  \<open>countText\<close>. The lengths are natural numbers; as JavaScript numbers they are
  exact, a string being shorter than \<open>2^53\<close>. The divisor 238 is a literal.
\<close>

definition countText :: "jsstring \<Rightarrow> ContentStats" where
  "countText text =
     (let cleaned = normalizeText text;
          characters = length cleaned;
          charactersNoSpaces = length (removeSpaces cleaned);
          words = (if cleaned \<noteq> [] then length (splitSpaces [] cleaned) else 0);
          sentences = (if cleaned \<noteq> [] then length (orEmpty (matchSentenceEnds cleaned)) else 0);
          paragraphs =
            (if trim text \<noteq> []
             then length (filter (\<lambda>p. trim p \<noteq> []) (splitParagraphs [] (trim text)))
             else 0);
          readingTimeMin = Math_max 1 (Math_ceil (fdiv (of_nat words) 238))
      in \<lparr>characters = characters, charactersNoSpaces = charactersNoSpaces, words = words,
          sentences = sentences, paragraphs = paragraphs, readingTimeMin = readingTimeMin\<rparr>)"

subsection \<open>The state within reach of \<open>countText\<close>\<close>

text \<open>
  Besides its parameter, the state a call could reach is the flag
  \<open>window.__seoAnalyzerLoaded\<close>, set when the script is loaded, and the regular
  expression objects: each has a mutable \<open>lastIndex\<close>, which a matching method of a
  \<open>g\<close> expression reads and writes. A store holds both; objects are named by number,
  and those below \<open>nextRef\<close> exist.
\<close>

record RegExpObject =
  lastIndex :: nat

record store =
  seoAnalyzerLoaded :: bool
  nextRef :: nat
  regExps :: "nat \<Rightarrow> RegExpObject"

text \<open>Evaluating a regular expression literal makes a new object, its \<open>lastIndex\<close> 0.\<close>

definition newRegExp :: "store \<Rightarrow> nat \<times> store" where
  "newRegExp w =
     (nextRef w,
      w\<lparr>nextRef := Suc (nextRef w),
        regExps := (regExps w)(nextRef w := \<lparr>lastIndex = 0\<rparr>)\<rparr>)"

definition setLastIndex :: "store \<Rightarrow> nat \<Rightarrow> nat \<Rightarrow> store" where
  "setLastIndex w r i = w\<lparr>regExps := (regExps w)(r := \<lparr>lastIndex = i\<rparr>)\<rparr>"

text \<open>
  \<open>s.replace(r, ...)\<close> and \<open>s.match(r)\<close> with a \<open>g\<close> expression first set
  \<open>lastIndex\<close> to 0, then match from the \<open>lastIndex\<close> they read, and the failing last
  match leaves it 0. The scanner is the one of the expression: what it does with the
  string from the first position tried on.
\<close>

definition replaceGlobal ::
  "(jsstring \<Rightarrow> jsstring) \<Rightarrow> store \<Rightarrow> nat \<Rightarrow> jsstring \<Rightarrow> jsstring \<times> store" where
  "replaceGlobal scan w r s =
     (let w1 = setLastIndex w r 0;
          i = lastIndex (regExps w1 r)
      in (take i s @ scan (drop i s), setLastIndex w1 r 0))"

definition matchGlobal ::
  "(jsstring \<Rightarrow> jsstring list) \<Rightarrow> store \<Rightarrow> nat \<Rightarrow> jsstring
     \<Rightarrow> jsstring list option \<times> store" where
  "matchGlobal scan w r s =
     (let w1 = setLastIndex w r 0;
          i = lastIndex (regExps w1 r);
          ms = scan (drop i s)
      in (if ms = [] then None else Some ms, setLastIndex w1 r 0))"

text \<open>
  \<open>s.split(r)\<close> matches with a copy of the expression that nothing else can reach;
  the expression itself is neither read nor written.
\<close>

definition splitBy ::
  "(jsstring \<Rightarrow> jsstring list) \<Rightarrow> store \<Rightarrow> nat \<Rightarrow> jsstring \<Rightarrow> jsstring list \<times> store" where
  "splitBy scan w r s = (scan s, w)"

text \<open>
  \<open>countText\<close> once more, statement by statement, with the store passed along. A
  literal in a branch of \<open>? :\<close> is evaluated only when the branch is.
\<close>

definition countTextIn :: "store \<Rightarrow> jsstring \<Rightarrow> ContentStats \<times> store" where
  "countTextIn w0 text =
     (let (r1, w1) = newRegExp w0;
          (collapsed, w2) = replaceGlobal collapseSpaces w1 r1 text;
          cleaned = trim collapsed;
          characters = length cleaned;
          (r2, w3) = newRegExp w2;
          (stripped, w4) = replaceGlobal removeSpaces w3 r2 cleaned;
          charactersNoSpaces = length stripped;
          (words, w5) =
            (if cleaned \<noteq> [] then
               let (r3, v) = newRegExp w4;
                   (pieces, v') = splitBy (splitSpaces []) v r3 cleaned
               in (length pieces, v')
             else (0, w4));
          (sentences, w6) =
            (if cleaned \<noteq> [] then
               let (r4, v) = newRegExp w5;
                   (m, v') = matchGlobal sentenceEnds v r4 cleaned
               in (length (orEmpty m), v')
             else (0, w5));
          (paragraphs, w7) =
            (if trim text \<noteq> [] then
               let (r5, v) = newRegExp w6;
                   (pieces, v') = splitBy (splitParagraphs []) v r5 (trim text)
               in (length (filter (\<lambda>p. trim p \<noteq> []) pieces), v')
             else (0, w6));
          readingTimeMin = Math_max 1 (Math_ceil (fdiv (of_nat words) 238))
      in (\<lparr>characters = characters, charactersNoSpaces = charactersNoSpaces, words = words,
           sentences = sentences, paragraphs = paragraphs, readingTimeMin = readingTimeMin\<rparr>,
          w7))"

section \<open>Syllable estimator\<close>

text \<open>\<open>word.replace(/e$/, '')\<close>: without the \<open>m\<close> flag, \<open>$\<close> is the end of the string.\<close>

definition stripTrailingE :: "jsstring \<Rightarrow> jsstring" where
  "stripTrailingE w = (if w \<noteq> [] \<and> last w = 0x65 then butlast w else w)"

text \<open>
  The matches of the global expression \<open>/[aeiouy]+/g\<close>, left to right: at a vowel the
  greedy \<open>+\<close> takes the whole run and the search goes on behind it, elsewhere it moves
  one code unit on.
\<close>

function vowelMatches :: "jsstring \<Rightarrow> jsstring list" where
  "vowelMatches [] = []"
| "vowelMatches (c # cs) =
     (if isVowel c then (c # takeWhile isVowel cs) # vowelMatches (dropWhile isVowel cs)
      else vowelMatches cs)"
  by pat_completeness auto
termination
  by (relation "measure length") (auto simp: less_Suc_eq_le length_dropWhile_le)

text \<open>\<open>String.prototype.match\<close> with a global expression is \<open>null\<close> when nothing matches.\<close>

definition matchVowelGroups :: "jsstring \<Rightarrow> jsstring list option" where
  "matchVowelGroups w = (let ms = vowelMatches w in if ms = [] then None else Some ms)"

definition countSyllables :: "jsstring \<Rightarrow> nat" where
  "countSyllables word =
     (let w = filter isLower (toLowerCase word) in
      if w = [] \<or> length w \<le> 2 then 1
      else
        let w' = stripTrailingE w;
            vowelGroups = matchVowelGroups w';
            count = (case vowelGroups of Some g \<Rightarrow> length g | None \<Rightarrow> 1)
        in max 1 count)"

subsection \<open>The estimator as the specification words it\<close>

text \<open>
  A maximal run of vowels starts at every vowel that is not preceded by a vowel;
  \<open>vowelRuns prev w\<close> counts these starts, \<open>prev\<close> telling whether the code unit
  before \<open>w\<close> is a vowel.
\<close>

fun vowelRuns :: "bool \<Rightarrow> jsstring \<Rightarrow> nat" where
  "vowelRuns prev [] = 0"
| "vowelRuns prev (c # cs) =
     (if isVowel c \<and> \<not> prev then 1 else 0) + vowelRuns (isVowel c) cs"

definition spec_countSyllables :: "jsstring \<Rightarrow> nat" where
  "spec_countSyllables word =
     (let w = filter isLower (toLowerCase word) in
      if length w \<le> 2 then 1 else max 1 (vowelRuns False (stripTrailingE w)))"

section \<open>Readability scorer\<close>

text \<open>The fields of the report; \<open>None\<close> is \<open>null\<close>.\<close>

record ReadabilityReport =
  score :: number
  fleschEase :: "number option"
  fleschKincaid :: "number option"
  avgSentenceLen :: "number option"
  avgWordLen :: "number option"
  syllablesPerWord :: "number option"
  message :: "jsstring option"

text \<open>The report returned for a text of fewer than 30 words.\<close>

definition notEnoughText :: ReadabilityReport where
  "notEnoughText =
     \<lparr>score = 0, fleschEase = None, fleschKincaid = None, avgSentenceLen = Some 0,
      avgWordLen = Some 0, syllablesPerWord = Some 0,
      message = Some (utf16 ''Not enough text to analyze (need 30+ words)'')\<rparr>"

text \<open>\<open>Math.max(1, (text.match(/[.!?]+(\s|$)/g) || []).length)\<close>.\<close>

definition sentenceCount :: "jsstring \<Rightarrow> number" where
  "sentenceCount text = Math_max 1 (of_nat (length (orEmpty (matchSentenceEnds text))))"

text \<open>\<open>words.reduce((sum, w) => sum + countSyllables(w), 0)\<close>.\<close>

definition totalSyllables :: "jsstring list \<Rightarrow> nat" where
  "totalSyllables ws = foldl (\<lambda>sum w. sum + countSyllables w) 0 ws"

text \<open>The score for a Flesch Reading Ease value.\<close>

definition scoreOfEase :: "number \<Rightarrow> number" where
  "scoreOfEase ease =
     (if 60 \<le> ease then 100
      else if 40 \<le> ease then 70
      else if 20 \<le> ease then 40
      else 20)"

text \<open>
  \<open>analyzeReadability\<close>, as a function of the text content of the page body (the
  source reads it from the document, with scripts, styles and hidden elements
  removed).
\<close>

definition analyzeReadability :: "jsstring \<Rightarrow> error + ReadabilityReport" where
  "analyzeReadability bodyText =
     (let text = normalizeText bodyText in
      if text = [] \<or> length (splitSpaces [] text) < 30 then Inr notEnoughText
      else
        let ws = splitSpaces [] text;
            wordCount = of_nat (length ws);
            sentenceCount = sentenceCount text;
            totalSyllables = of_nat (totalSyllables ws)
        in
        andThen (divide wordCount sentenceCount) (\<lambda>wordsPerSentence.
        andThen (divide (of_nat (length (concat ws))) wordCount) (\<lambda>charsPerWord.
        andThen (divide totalSyllables wordCount) (\<lambda>syllablesPerWord'.
          let avgSentenceLen = toFixedNumber 1 wordsPerSentence;
              avgWordLen = toFixedNumber 1 charsPerWord;
              syllablesPerWord = toFixedNumber 2 syllablesPerWord';
              fleschEase = Math_max 0 (Math_min 100 (toFixedNumber 1
                (fsub (fsub (literal 206835 3) (fmul (literal 1015 3) wordsPerSentence))
                      (fmul (literal 846 1) syllablesPerWord'))));
              fleschKincaid = Math_max 0 (toFixedNumber 1
                (fsub (fadd (fmul (literal 39 2) wordsPerSentence)
                            (fmul (literal 118 1) syllablesPerWord'))
                      (literal 1559 2)));
              score = scoreOfEase fleschEase
          in Inr \<lparr>score = score, fleschEase = Some fleschEase,
                   fleschKincaid = Some fleschKincaid, avgSentenceLen = Some avgSentenceLen,
                   avgWordLen = Some avgWordLen, syllablesPerWord = Some syllablesPerWord,
                   message = None\<rparr>))))"

subsection \<open>The Flesch Reading Ease as the specification words it\<close>

definition clamp :: "number \<Rightarrow> number \<Rightarrow> number \<Rightarrow> number" where
  "clamp lo hi x = (if x < lo then lo else if hi < x then hi else x)"

definition spec_fleschEase :: "number \<Rightarrow> number \<Rightarrow> number \<Rightarrow> number" where
  "spec_fleschEase nWords nSentences nSyllables =
     clamp 0 100 (toFixedNumber 1
       (fsub (fsub (literal 206835 3) (fmul (literal 1015 3) (fdiv nWords nSentences)))
             (fmul (literal 846 1) (fdiv nSyllables nWords))))"

section \<open>N-gram extractor\<close>

text \<open>The classes \<open>[a-z0-9]\<close> and \<open>[a-z0-9'-]\<close>.\<close>

definition isAlnum :: "jschar \<Rightarrow> bool" where
  "isAlnum c \<longleftrightarrow> isLower c \<or> (0x30 \<le> c \<and> c \<le> 0x39)"

definition isTokenChar :: "jschar \<Rightarrow> bool" where
  "isTokenChar c \<longleftrightarrow> isAlnum c \<or> c = 0x27 \<or> c = 0x2D"

text \<open>
  One attempt to match \<open>/[a-z0-9](?:[a-z0-9'-]*[a-z0-9])?/\<close> at the start of \<open>s\<close>: the
  token and the text behind it. After the first letter or digit the greedy \<open>*\<close>
  takes the whole run of token characters and gives them back until the last one is a
  letter or digit; when the run has none, the optional group matches nothing.
\<close>

definition tokenAt :: "jsstring \<Rightarrow> (jsstring \<times> jsstring) option" where
  "tokenAt s =
     (case s of
        [] \<Rightarrow> None
      | c # cs \<Rightarrow>
          if isAlnum c then
            let run = takeWhile isTokenChar cs;
                body = rev (dropWhile (\<lambda>d. \<not> isAlnum d) (rev run))
            in Some (c # body, drop (length body) cs)
          else None)"

lemma tokenAt_shorter: "tokenAt s = Some (tok, rest) \<Longrightarrow> length rest < length s"
  by (cases s) (auto simp: tokenAt_def Let_def split: if_splits)

text \<open>The matches of the global token expression, left to right.\<close>

function tokens :: "jsstring \<Rightarrow> jsstring list" where
  "tokens [] = []"
| "tokens (c # cs) =
     (case tokenAt (c # cs) of
        Some (tok, rest) \<Rightarrow> tok # tokens rest
      | None \<Rightarrow> tokens cs)"
  by pat_completeness auto
termination
  by (relation "measure length") (auto dest: tokenAt_shorter)

definition matchTokens :: "jsstring \<Rightarrow> jsstring list option" where
  "matchTokens s = (let ms = tokens s in if ms = [] then None else Some ms)"

text \<open>The stop words, as the source lists them (a \<open>Set\<close>: repetitions do not count).\<close>

definition stopWords :: "jsstring set" where
  "stopWords = set (map utf16
     [''a'', ''an'', ''the'', ''and'', ''or'', ''but'', ''in'', ''on'', ''at'', ''to'', ''for'', ''of'', ''with'', ''by'',
      ''from'', ''is'', ''it'', ''its'', ''this'', ''that'', ''are'', ''was'', ''were'', ''be'', ''been'', ''being'',
      ''have'', ''has'', ''had'', ''do'', ''does'', ''did'', ''will'', ''would'', ''could'', ''should'', ''may'',
      ''might'', ''shall'', ''can'', ''not'', ''no'', ''nor'', ''so'', ''if'', ''then'', ''than'', ''too'', ''very'',
      ''just'', ''about'', ''above'', ''after'', ''again'', ''all'', ''also'', ''am'', ''as'', ''because'',
      ''before'', ''between'', ''both'', ''each'', ''few'', ''get'', ''got'', ''he'', ''her'', ''here'', ''him'',
      ''his'', ''how'', ''i'', ''into'', ''me'', ''more'', ''most'', ''my'', ''new'', ''now'', ''of'', ''only'',
      ''other'', ''our'', ''out'', ''over'', ''own'', ''re'', ''same'', ''she'', ''some'', ''such'', ''there'',
      ''they'', ''their'', ''them'', ''these'', ''those'', ''through'', ''under'', ''up'', ''us'', ''we'',
      ''what'', ''when'', ''where'', ''which'', ''while'', ''who'', ''whom'', ''why'', ''you'', ''your'',
      ''able'', ''across'', ''already'', ''always'', ''among'', ''any'', ''around'', ''away'', ''back'',
      ''become'', ''been'', ''below'', ''come'', ''down'', ''during'', ''even'', ''every'', ''find'',
      ''first'', ''go'', ''going'', ''good'', ''great'', ''help'', ''here'', ''high'', ''however'',
      ''into'', ''keep'', ''know'', ''last'', ''let'', ''like'', ''long'', ''look'', ''made'', ''make'',
      ''many'', ''much'', ''must'', ''need'', ''next'', ''off'', ''often'', ''old'', ''once'', ''one'',
      ''only'', ''part'', ''per'', ''put'', ''said'', ''say'', ''see'', ''seem'', ''set'', ''show'',
      ''since'', ''still'', ''take'', ''tell'', ''thing'', ''think'', ''time'', ''two'', ''use'',
      ''want'', ''way'', ''well'', ''work'', ''year''])"

subsection \<open>The frequency table\<close>

text \<open>
  The table \<open>counts\<close> is an object created by \<open>{}\<close>. The model keeps its own
  properties in the order of their creation. A value is a number or, for a key that
  meets a property inherited from \<open>Object.prototype\<close>, a string: there
  \<open>counts[gram] || 0\<close> is the inherited function, and adding 1 to it appends
  \<open>1\<close> to its source text. The text is left abstract; it is not a numeric string.
\<close>

datatype jsvalue = Num nat | Str

type_synonym jsobject = "(jsstring \<times> jsvalue) list"

text \<open>The names every object inherits from \<open>Object.prototype\<close>.\<close>

definition inherited :: "jsstring \<Rightarrow> bool" where
  "inherited key \<longleftrightarrow> key \<in> set (map utf16
     [''constructor'', ''toString'', ''toLocaleString'', ''valueOf'', ''hasOwnProperty'',
      ''isPrototypeOf'', ''propertyIsEnumerable'', ''__defineGetter__'',
      ''__defineSetter__'', ''__lookupGetter__'', ''__lookupSetter__'', ''__proto__''])"

text \<open>
  Assignment \<open>counts[key] = v\<close>: an own property keeps its place, a new one goes to
  the end. \<open>__proto__\<close> is an accessor whose setter ignores a value that is not an
  object, so that assignment creates nothing.
\<close>

fun setProperty :: "jsobject \<Rightarrow> jsstring \<Rightarrow> jsvalue \<Rightarrow> jsobject" where
  "setProperty [] key v = [(key, v)]"
| "setProperty ((k, u) # ps) key v =
     (if k = key then (k, v) # ps else (k, u) # setProperty ps key v)"

text \<open>\<open>counts[gram] = (counts[gram] || 0) + 1\<close>.\<close>

definition increment :: "jsobject \<Rightarrow> jsstring \<Rightarrow> jsobject" where
  "increment counts gram =
     (case map_of counts gram of
        Some (Num k) \<Rightarrow> setProperty counts gram (Num (k + 1))
      | Some Str \<Rightarrow> setProperty counts gram Str
      | None \<Rightarrow>
          if gram = utf16 ''__proto__'' then counts
          else if inherited gram then setProperty counts gram Str
          else setProperty counts gram (Num 1))"

text \<open>\<open>parts.join(' ')\<close> and \<open>gram.split(' ')\<close>.\<close>

fun joinSpace :: "jsstring list \<Rightarrow> jsstring" where
  "joinSpace [] = []"
| "joinSpace [w] = w"
| "joinSpace (w # ws) = w @ 0x20 # joinSpace ws"

fun splitSpace :: "jsstring \<Rightarrow> jsstring \<Rightarrow> jsstring list" where
  "splitSpace cur [] = [cur]"
| "splitSpace cur (c # cs) =
     (if c = 0x20 then cur # splitSpace [] cs else splitSpace (cur @ [c]) cs)"

text \<open>
  \<open>buildNgramCounts(words, n, stopWords)\<close>; the third argument is \<open>None\<close> where the
  source passes none. The loop runs \<open>i\<close> from 0 while \<open>i <= words.length - n\<close>.
\<close>

definition ngramStep :: "jsstring list \<Rightarrow> nat \<Rightarrow> jsstring set option \<Rightarrow> jsobject \<Rightarrow> nat \<Rightarrow> jsobject" where
  "ngramStep ws n stops counts i =
     (let gram = joinSpace (take n (drop i ws)) in
      if 1 < n \<and> (case stops of
                     None \<Rightarrow> False
                   | Some sw \<Rightarrow> list_all (\<lambda>w. w \<in> sw) (splitSpace [] gram))
      then counts
      else increment counts gram)"

definition buildNgramCounts :: "jsstring list \<Rightarrow> nat \<Rightarrow> jsstring set option \<Rightarrow> jsobject" where
  "buildNgramCounts ws n stops = foldl (ngramStep ws n stops) [] [0 ..< Suc (length ws) - n]"

subsection \<open>The ranking\<close>

text \<open>
  \<open>Object.entries\<close> lists the own properties whose key is an array index (the
  canonical decimal form of an integer from 0 to \<open>2^32 - 2\<close>) first, in ascending
  numeric order, and the other keys behind them in the order of their creation.
\<close>

definition isDigit :: "jschar \<Rightarrow> bool" where
  "isDigit c \<longleftrightarrow> 0x30 \<le> c \<and> c \<le> 0x39"

definition digitsValue :: "jsstring \<Rightarrow> nat" where
  "digitsValue key = foldl (\<lambda>a c. 10 * a + (unat c - 48)) 0 key"

definition isArrayIndex :: "jsstring \<Rightarrow> bool" where
  "isArrayIndex key \<longleftrightarrow>
     key \<noteq> [] \<and> list_all isDigit key \<and> (key = [0x30] \<or> hd key \<noteq> 0x30) \<and>
     digitsValue key \<le> 4294967294"

definition objectEntries :: "jsobject \<Rightarrow> (jsstring \<times> jsvalue) list" where
  "objectEntries obj =
     sort_key (\<lambda>e. digitsValue (fst e)) (filter (\<lambda>e. isArrayIndex (fst e)) obj) @
     filter (\<lambda>e. \<not> isArrayIndex (fst e)) obj"

text \<open>\<open>count >= 2\<close>; a string that is not numeric compares as \<open>NaN\<close>.\<close>

definition atLeastTwo :: "jsvalue \<Rightarrow> bool" where
  "atLeastTwo v = (case v of Num c \<Rightarrow> 2 \<le> c | Str \<Rightarrow> False)"

text \<open>The number a value stands for in \<open>b[1] - a[1]\<close>; only numbers reach the sort.\<close>

definition numberOf :: "jsvalue \<Rightarrow> int" where
  "numberOf v = (case v of Num c \<Rightarrow> int c | Str \<Rightarrow> 0)"

record NgramEntry =
  phrase :: jsstring
  count :: jsvalue

text \<open>
  \<open>getTopN(counts, n)\<close>, for a natural number \<open>n\<close>. \<open>Array.prototype.sort\<close> is
  stable, and the comparator \<open>b[1] - a[1]\<close> orders by descending count: the result is
  the one of any stable sort, here insertion sort on the negated count.
\<close>

definition toEntry :: "jsstring \<times> jsvalue \<Rightarrow> NgramEntry" where
  "toEntry e = (case e of (p, c) \<Rightarrow> \<lparr>phrase = p, count = c\<rparr>)"

definition getTopN :: "jsobject \<Rightarrow> nat \<Rightarrow> NgramEntry list" where
  "getTopN counts n =
     map toEntry
       (take n
         (sort_key (\<lambda>e. - numberOf (snd e))
           (filter (\<lambda>e. atLeastTwo (snd e)) (objectEntries counts))))"

record NgramReport =
  unigrams :: "NgramEntry list"
  bigrams :: "NgramEntry list"
  trigrams :: "NgramEntry list"
  totalWords :: nat
  uniqueWords :: nat

text \<open>
  \<open>analyzeNgrams\<close>, as a function of the text content of the page body. Its three
  tables are the values of the source's \<open>unigrams\<close>, \<open>bigrams\<close> and \<open>trigrams\<close>.
\<close>

definition tokenizeWords :: "jsstring \<Rightarrow> jsstring list" where
  "tokenizeWords bodyText = orEmpty (matchTokens (toLowerCase bodyText))"

definition unigramCounts :: "jsstring \<Rightarrow> jsobject" where
  "unigramCounts bodyText =
     buildNgramCounts
       (filter (\<lambda>w. w \<notin> stopWords \<and> 1 < length w) (tokenizeWords bodyText)) 1 None"

definition bigramCounts :: "jsstring \<Rightarrow> jsobject" where
  "bigramCounts bodyText =
     buildNgramCounts (filter (\<lambda>w. 1 < length w) (tokenizeWords bodyText)) 2 (Some stopWords)"

definition trigramCounts :: "jsstring \<Rightarrow> jsobject" where
  "trigramCounts bodyText =
     buildNgramCounts (filter (\<lambda>w. 1 < length w) (tokenizeWords bodyText)) 3 (Some stopWords)"

definition analyzeNgrams :: "jsstring \<Rightarrow> NgramReport" where
  "analyzeNgrams bodyText =
     \<lparr>unigrams = getTopN (unigramCounts bodyText) 15,
      bigrams = getTopN (bigramCounts bodyText) 10,
      trigrams = getTopN (trigramCounts bodyText) 10,
      totalWords = length (tokenizeWords bodyText),
      uniqueWords = length (remdups (tokenizeWords bodyText))\<rparr>"

subsection \<open>Auxiliary notions\<close>

text \<open>What one \<open>counts[g] = (counts[g] || 0) + 1\<close> does to the value stored under \<open>g\<close>.\<close>

definition bump :: "jsstring \<Rightarrow> jsvalue option \<Rightarrow> jsvalue option" where
  "bump g v =
     (case v of
        Some (Num k) \<Rightarrow> Some (Num (k + 1))
      | Some Str \<Rightarrow> Some Str
      | None \<Rightarrow> if g = utf16 ''__proto__'' then None
                else if inherited g then Some Str else Some (Num 1))"

text \<open>The test of \<open>buildNgramCounts\<close> that makes the loop skip a candidate.\<close>

definition skipped :: "jsstring set option \<Rightarrow> nat \<Rightarrow> jsstring \<Rightarrow> bool" where
  "skipped stops n gram \<longleftrightarrow>
     1 < n \<and> (case stops of None \<Rightarrow> False
               | Some sw \<Rightarrow> list_all (\<lambda>w. w \<in> sw) (splitSpace [] gram))"

subsection \<open>The sliding window as the specification words it\<close>

text \<open>One candidate per start index from 0 to \<open>len - n\<close>: \<open>n\<close> consecutive tokens.\<close>

definition windows :: "nat \<Rightarrow> 'a list \<Rightarrow> 'a list list" where
  "windows n ws = map (\<lambda>i. take n (drop i ws)) [0 ..< Suc (length ws) - n]"

section \<open>Sample inputs\<close>

definition shortText :: jsstring where
  "shortText = utf16 ''Too short. Really!''"

definition blankText :: jsstring where
  "blankText = [0x20, 0x0A, 0x09, 0x0A]"

definition numbersText :: jsstring where
  "numbersText = utf16 ''SEO tips 10: seo tips, 10!''"

definition catText :: jsstring where
  "catText = utf16 ''the cat sat on the mat. the cat sat on the mat.''"

definition sampleCounts :: jsobject where
  "sampleCounts =
     [(utf16 ''page'', Num 2), (utf16 ''audit'', Num 1), (utf16 ''rank'', Num 3),
      (utf16 ''site'', Num 2), (utf16 ''constructor'', Str), (utf16 ''link'', Num 2)]"

definition easyText :: jsstring where
  "easyText = utf16 ''Robots index pages. Users visit often. Titles guide readers. Links build trust. Content earns traffic. Speed helps ranking. Images need labels. Search engines crawl. Writers edit drafts. Visitors scan pages.''"

definition harderText :: jsstring where
  "harderText = utf16 ''Robots index pages. Users visit often. Titles guide readers. Links build lasting trust. Content earns traffic. Speed helps mobile ranking. Images need labels. Search engines crawl fast. Writers edit drafts. Visitors scan pages.''"

text \<open>A store in which the script is loaded and one expression was left at position 7.\<close>

definition sampleStore :: store where
  "sampleStore =
     \<lparr>seoAnalyzerLoaded = True, nextRef = 1,
      regExps = (\<lambda>r. \<lparr>lastIndex = 0\<rparr>)(0 := \<lparr>lastIndex = 7\<rparr>)\<rparr>"

section \<open>Properties of the syllable estimator\<close>

lemma vowelRuns_skip:
  "vowelRuns True cs = vowelRuns False (dropWhile isVowel cs)"
  by (induction cs) auto

lemma length_vowelMatches: "length (vowelMatches w) = vowelRuns False w"
  by (induction w rule: vowelMatches.induct) (auto simp: vowelRuns_skip)

text \<open>
  Claim C6. For every string, \<open>countSyllables\<close> returns an integer of at least 1, and it
  is the number the specification describes: lower-case the word and strip everything
  but the letters a to z; a rest of at most two letters counts as one syllable;
  otherwise one trailing e is stripped and the result is the number of maximal vowel
  runs (a, e, i, o, u, y), but at least 1. In particular "cat" and "a" have one
  syllable and "beautiful" has at least three.
\<close>

theorem countSyllables_spec:
  "countSyllables word = spec_countSyllables word \<and> 1 \<le> countSyllables word \<and>
   countSyllables (utf16 ''cat'') = 1 \<and> 3 \<le> countSyllables (utf16 ''beautiful'') \<and>
   countSyllables (utf16 ''a'') = 1"
proof -
  have eq: "countSyllables word = spec_countSyllables word"
    by (auto simp: countSyllables_def spec_countSyllables_def matchVowelGroups_def Let_def
        length_vowelMatches [symmetric])
  have pos: "1 \<le> countSyllables word"
    by (simp add: countSyllables_def Let_def)
  have cat: "countSyllables (utf16 ''cat'') = 1"
    by (simp add: countSyllables_def utf16_def toLowerCase_def lowerUnit_def isLower_def
        stripTrailingE_def matchVowelGroups_def isVowel_def Let_def)
  have a: "countSyllables (utf16 ''a'') = 1"
    by (simp add: countSyllables_def utf16_def toLowerCase_def lowerUnit_def isLower_def
        Let_def)
  have beautiful: "countSyllables (utf16 ''beautiful'') = 3"
    by (simp add: countSyllables_def utf16_def toLowerCase_def lowerUnit_def isLower_def
        stripTrailingE_def matchVowelGroups_def isVowel_def Let_def)
  from eq pos cat a beautiful show ?thesis by simp
qed


section \<open>Auxiliary facts\<close>

lemma tiesToEven_of_int: "tiesToEven (of_int n) = n"
  by (simp add: tiesToEven_def)

lemma tiesToEven_floor: "\<lfloor>x\<rfloor> \<le> tiesToEven x \<and> tiesToEven x \<le> \<lfloor>x\<rfloor> + 1"
  by (simp add: tiesToEven_def Let_def)

lemma tiesToEven_mono:
  assumes le: "x \<le> y"
  shows "tiesToEven x \<le> tiesToEven y"
proof (cases "\<lfloor>x\<rfloor> = \<lfloor>y\<rfloor>")
  case True
  then have "x - of_int \<lfloor>x\<rfloor> \<le> y - of_int \<lfloor>y\<rfloor>" using le by simp
  then show ?thesis using True by (auto simp: tiesToEven_def Let_def)
next
  case False
  moreover have "\<lfloor>x\<rfloor> \<le> \<lfloor>y\<rfloor>" using le by (rule floor_mono)
  ultimately have "\<lfloor>x\<rfloor> + 1 \<le> \<lfloor>y\<rfloor>" by simp
  then show ?thesis using tiesToEven_floor [of x] tiesToEven_floor [of y] by linarith
qed

lemma tiesToEven_above:
  assumes "of_int N + c \<le> y" and "1 / 2 < c"
  shows "N + 1 \<le> tiesToEven y"
proof (cases "\<lfloor>y\<rfloor> = N")
  case True
  then have "1 / 2 < y - of_int \<lfloor>y\<rfloor>" using assms by simp
  then show ?thesis using True by (auto simp: tiesToEven_def Let_def)
next
  case False
  have "of_int N \<le> y" using assms by linarith
  then have "N \<le> \<lfloor>y\<rfloor>" by (simp add: le_floor_iff)
  with False have "N + 1 \<le> \<lfloor>y\<rfloor>" by simp
  then show ?thesis using tiesToEven_floor [of y] by linarith
qed

lemma binaryExponent_bounds:
  assumes "0 < x"
  shows "power_int 2 (binaryExponent x) \<le> x \<and> x < power_int 2 (binaryExponent x + 1)"
proof -
  obtain p q where pq: "quotient_of x = (p, q)" by (cases "quotient_of x")
  have q: "0 < q" by (rule quotient_of_denom_pos [OF pq])
  have x: "x = of_int p / of_int q" by (rule quotient_of_div [OF pq])
  have p: "0 < p" using assms q x by (simp add: zero_less_divide_iff)
  define A where "A = nat (bitlen p)"
  define B where "B = nat (bitlen q)"
  have bp: "bitlen p = int A" "1 \<le> A"
    using p bitlen_nonneg [of p] bitlen_eq_zero_iff [of p] by (auto simp: A_def)
  have bq: "bitlen q = int B" "1 \<le> B"
    using q bitlen_nonneg [of q] bitlen_eq_zero_iff [of q] by (auto simp: B_def)
  have pb: "2 ^ (A - 1) \<le> p" "p < 2 ^ A"
    using bitlen_bounds [OF p] bp by (auto simp: nat_diff_distrib)
  have qb: "2 ^ (B - 1) \<le> q" "q < 2 ^ B"
    using bitlen_bounds [OF q] bq by (auto simp: nat_diff_distrib)
  define P :: rat where "P = of_int p"
  define Q :: rat where "Q = of_int q"
  have P: "2 ^ A \<le> 2 * P" "P < 2 ^ A"
  proof -
    have "(2::int) ^ A = 2 * 2 ^ (A - 1)" using bp(2) by (cases A) auto
    then have "(2::int) ^ A \<le> 2 * p" using pb(1) by simp
    then have "(of_int (2 ^ A) :: rat) \<le> of_int (2 * p)" by (simp only: of_int_le_iff)
    then show "2 ^ A \<le> 2 * P" by (simp add: P_def)
    have "(of_int p :: rat) < of_int (2 ^ A)" using pb(2) by (simp only: of_int_less_iff)
    then show "P < 2 ^ A" by (simp add: P_def)
  qed
  have Q: "2 ^ B \<le> 2 * Q" "Q < 2 ^ B" "0 < Q"
  proof -
    have "(2::int) ^ B = 2 * 2 ^ (B - 1)" using bq(2) by (cases B) auto
    then have "(2::int) ^ B \<le> 2 * q" using qb(1) by simp
    then have "(of_int (2 ^ B) :: rat) \<le> of_int (2 * q)" by (simp only: of_int_le_iff)
    then show "2 ^ B \<le> 2 * Q" by (simp add: Q_def)
    have "(of_int q :: rat) < of_int (2 ^ B)" using qb(2) by (simp only: of_int_less_iff)
    then show "Q < 2 ^ B" by (simp add: Q_def)
    show "0 < Q" using q by (simp add: Q_def)
  qed
  define k where "k = int A - int B"
  define r :: rat where "r = 2 ^ A / 2 ^ B"
  have r: "power_int 2 k = r"
    by (simp add: k_def r_def power_int_diff)
  have r1: "power_int 2 (k + 1) = 2 * r"
    by (simp add: r [symmetric] power_int_add)
  have r2: "power_int 2 (k - 1) = r / 2"
    by (simp add: r [symmetric] power_int_diff)
  have xx: "x = P / Q" by (simp add: x P_def Q_def)
  have up: "x < 2 * r"
  proof -
    have "P * 2 ^ B < 2 ^ A * (2 * Q)"
      using P Q by (intro mult_less_le_imp_less) auto
    then show ?thesis using Q by (simp add: xx r_def field_simps)
  qed
  have lo: "r / 2 < x"
  proof -
    have "2 ^ A * Q < (2 * P) * 2 ^ B"
      using P Q by (intro mult_le_less_imp_less) auto
    then show ?thesis using Q by (simp add: xx r_def field_simps)
  qed
  have e: "binaryExponent x = (if r \<le> x then k else k - 1)"
    by (simp add: binaryExponent_def pq bp bq k_def [symmetric] r)
  show ?thesis
    using up lo by (auto simp: e r r1 r2)
qed


lemma toDouble_scaled:
  assumes x: "0 < x" and e: "binaryExponent x \<le> 52" and j: "j = nat (52 - binaryExponent x)"
  shows "toDouble x = of_int (tiesToEven (x * 2 ^ j)) / 2 ^ j"
proof -
  have "binaryExponent x - 52 = - int j" using e j by simp
  then have "power_int (2::rat) (binaryExponent x - 52) = power_int 2 (- int j)"
    by (simp only:)
  then have u: "power_int (2::rat) (binaryExponent x - 52) = 1 / 2 ^ j"
    by (simp add: power_int_minus field_simps)
  show ?thesis
    using x by (simp add: toDouble_def Let_def u)
qed

lemma ceiling_fdiv_238:
  assumes w: "w < 2 ^ 53"
  shows "\<lceil>fdiv (of_nat w) 238\<rceil> = \<lceil>(of_nat w :: rat) / 238\<rceil>"
proof (cases "w = 0")
  case True
  then show ?thesis by (simp add: fdiv_def toDouble_def)
next
  case False
  define x :: rat where "x = of_nat w / 238"
  have xpos: "0 < x" using False by (simp add: x_def)
  define e where "e = binaryExponent x"
  have eb: "power_int 2 e \<le> x"
    using binaryExponent_bounds [OF xpos] by (simp add: e_def)
  have "(of_nat w :: rat) < of_nat (2 ^ 53)" using w by (simp only: of_nat_less_iff)
  then have x46: "x < 2 ^ 46" by (simp add: x_def)
  have e45: "e \<le> 45"
  proof (rule ccontr)
    assume "\<not> e \<le> 45"
    then have "46 \<le> e" by simp
    then have "power_int (2::rat) 46 \<le> power_int 2 e"
      by (intro power_int_increasing) auto
    then show False using eb x46 by simp
  qed
  define j where "j = nat (52 - e)"
  have j7: "7 \<le> j" using e45 by (simp add: j_def)
  have td: "toDouble x = of_int (tiesToEven (x * 2 ^ j)) / 2 ^ j"
    using e45 by (intro toDouble_scaled [OF xpos]) (auto simp: e_def j_def)
  define n where "n = \<lceil>x\<rceil>"
  have upx: "x \<le> of_int n" by (simp add: n_def)
  have lox: "of_int (n - 1) + 1 / 238 \<le> x"
  proof -
    have "of_int n - 1 < x" unfolding n_def by linarith
    then have "of_int (238 * (n - 1)) < (of_int (int w) :: rat)"
      by (simp add: x_def field_simps)
    then have "238 * (n - 1) < int w" by (simp only: of_int_less_iff)
    then have "238 * (n - 1) + 1 \<le> int w" by simp
    then have "(of_int (238 * (n - 1) + 1) :: rat) \<le> of_int (int w)"
      by (simp only: of_int_le_iff)
    then show ?thesis by (simp add: x_def field_simps)
  qed
  have p: "(0::rat) < 2 ^ j" by simp
  have big: "(128::rat) \<le> 2 ^ j"
  proof -
    have "(2::rat) ^ 7 \<le> 2 ^ j" using j7 by (intro power_increasing) auto
    then show ?thesis by simp
  qed
  have upper: "toDouble x \<le> of_int n"
  proof -
    have "x * 2 ^ j \<le> of_int (n * 2 ^ j)"
      using upx p by (simp add: mult_right_mono)
    then have "tiesToEven (x * 2 ^ j) \<le> n * 2 ^ j"
      using tiesToEven_mono [of "x * 2 ^ j" "of_int (n * 2 ^ j)"]
      by (simp only: tiesToEven_of_int)
    then have "(of_int (tiesToEven (x * 2 ^ j)) :: rat) \<le> of_int (n * 2 ^ j)"
      by (simp only: of_int_le_iff)
    then show ?thesis using p by (simp add: td field_simps)
  qed
  have lower: "of_int n - 1 < toDouble x"
  proof -
    have "(of_int (n - 1) + 1 / 238) * 2 ^ j \<le> x * 2 ^ j"
      using lox p by (simp only: mult_right_mono order_less_imp_le)
    then have a: "of_int ((n - 1) * 2 ^ j) + 2 ^ j / 238 \<le> x * 2 ^ j"
      by (simp add: algebra_simps)
    have b: "(1::rat) / 2 < 2 ^ j / 238" using big by simp
    have "(n - 1) * 2 ^ j + 1 \<le> tiesToEven (x * 2 ^ j)"
      using a b by (rule tiesToEven_above)
    then have "(of_int ((n - 1) * 2 ^ j + 1) :: rat) \<le> of_int (tiesToEven (x * 2 ^ j))"
      by (simp only: of_int_le_iff)
    then have "(of_int n - 1) * 2 ^ j + 1 \<le> toDouble x * 2 ^ j"
      using p by (simp add: td)
    then have "(of_int n - 1) * 2 ^ j < toDouble x * 2 ^ j" by linarith
    then show ?thesis using p by (simp only: mult_less_cancel_right_pos)
  qed
  have "\<lceil>toDouble x\<rceil> = n" using lower upper by (intro ceiling_unique) auto
  then show ?thesis by (simp add: fdiv_def x_def n_def)
qed


lemma list_all_dropWhile: "list_all P (dropWhile P s) \<longleftrightarrow> list_all P s"
  by (induction s) auto

lemma dropWhile_Nil_all: "dropWhile P s = [] \<longleftrightarrow> list_all P s"
  by (induction s) auto

lemma trim_empty_iff: "trim s = [] \<longleftrightarrow> list_all isSpace s"
proof -
  have "trim s = [] \<longleftrightarrow> list_all isSpace (rev (dropWhile isSpace s))"
    unfolding trim_def by (simp only: rev_is_Nil_conv dropWhile_Nil_all)
  also have "\<dots> \<longleftrightarrow> list_all isSpace (dropWhile isSpace s)"
    by (simp add: list_all_iff)
  also have "\<dots> \<longleftrightarrow> list_all isSpace s"
    by (rule list_all_dropWhile)
  finally show ?thesis .
qed

lemma isSpace_space: "isSpace 0x20"
  by (simp add: isSpace_def)

lemma collapseSpaces_all: "list_all isSpace (collapseSpaces s) \<longleftrightarrow> list_all isSpace s"
  by (induction s rule: collapseSpaces.induct) (auto simp: isSpace_space list_all_dropWhile)

lemma normalizeText_empty_iff: "normalizeText text = [] \<longleftrightarrow> list_all isSpace text"
  by (simp add: normalizeText_def trim_empty_iff collapseSpaces_all)

lemma trim_head: "trim s = c # cs \<Longrightarrow> \<not> isSpace c"
proof -
  assume a: "trim s = c # cs"
  define t where "t = dropWhile isSpace s"
  have tr: "trim s = rev (dropWhile isSpace (rev t))" by (simp add: trim_def t_def)
  with a have "t \<noteq> []" by auto
  then obtain d ds where t: "t = d # ds" by (cases t) auto
  then have d: "\<not> isSpace d"
    using dropWhile_eq_Cons_conv [of isSpace s d ds] by (simp add: t_def)
  have "dropWhile isSpace (rev ds @ [d]) = dropWhile isSpace (rev ds) @ [d]"
    using d by (simp add: dropWhile_append)
  then have "trim s = d # rev (dropWhile isSpace (rev ds))" by (simp add: tr t)
  with a d show ?thesis by simp
qed

lemma length_trim_le: "length (trim s) \<le> length s"
proof -
  have "length (trim s) \<le> length (rev (dropWhile isSpace s))"
    using length_dropWhile_le [of isSpace "rev (dropWhile isSpace s)"]
    by (simp add: trim_def)
  also have "\<dots> \<le> length s" by (simp add: length_dropWhile_le)
  finally show ?thesis .
qed

lemma length_collapseSpaces_le: "length (collapseSpaces s) \<le> length s"
proof (induction s rule: collapseSpaces.induct)
  case 1
  then show ?case by simp
next
  case (2 c cs)
  have "length (dropWhile isSpace cs) \<le> length cs" by (rule length_dropWhile_le)
  with 2 show ?case by auto
qed

lemma length_splitSpaces_le: "length (splitSpaces cur s) \<le> length s + 1"
proof (induction cur s rule: splitSpaces.induct)
  case (1 cur)
  then show ?case by simp
next
  case (2 cur c cs)
  have "length (dropWhile isSpace cs) \<le> length cs" by (rule length_dropWhile_le)
  with 2 show ?case by auto
qed

lemma words_countText:
  "words (countText text) =
     (if normalizeText text \<noteq> [] then length (splitSpaces [] (normalizeText text)) else 0)"
  by (simp add: countText_def Let_def)

lemma words_le_length: "words (countText text) \<le> length text"
proof (cases "normalizeText text")
  case Nil
  then show ?thesis by (simp add: words_countText)
next
  case (Cons c cs)
  then have "\<not> isSpace c" by (auto simp: normalizeText_def dest: trim_head)
  then have "splitSpaces [] (c # cs) = splitSpaces [c] cs" by simp
  then have "length (splitSpaces [] (c # cs)) \<le> length (c # cs)"
    using length_splitSpaces_le [of "[c]" cs] by simp
  then have "words (countText text) \<le> length (normalizeText text)"
    by (simp only: words_countText Cons) simp
  also have "\<dots> \<le> length text"
    using length_trim_le [of "collapseSpaces text"] length_collapseSpaces_le [of "text"]
    unfolding normalizeText_def by linarith
  finally show ?thesis .
qed

lemma readingTime_exact:
  assumes "length text < 2 ^ 53"
  shows "readingTimeMin (countText text)
         = of_int (max 1 \<lceil>(of_nat (words (countText text)) :: rat) / 238\<rceil>)"
proof -
  have "words (countText text) < 2 ^ 53"
    using words_le_length [of "text"] assms by linarith
  then have "\<lceil>fdiv (of_nat (words (countText text))) 238\<rceil>
             = \<lceil>(of_nat (words (countText text)) :: rat) / 238\<rceil>"
    by (rule ceiling_fdiv_238)
  moreover have "readingTimeMin (countText text)
        = Math_max 1 (Math_ceil (fdiv (of_nat (words (countText text))) 238))"
    by (simp add: countText_def Let_def)
  ultimately show ?thesis by (simp add: Math_max_def Math_ceil_def)
qed

lemma countText_blank:
  assumes "normalizeText text = []"
  shows "countText text = \<lparr>characters = 0, charactersNoSpaces = 0, words = 0, sentences = 0,
           paragraphs = 0, readingTimeMin = 1\<rparr>"
proof -
  have "trim text = []" using assms by (simp add: normalizeText_empty_iff trim_empty_iff)
  then show ?thesis
    using assms
    by (simp add: countText_def removeSpaces_def fdiv_def toDouble_def Math_max_def Math_ceil_def)
qed

lemma readingTime_ge_1: "1 \<le> readingTimeMin (countText text)"
  by (simp add: countText_def Let_def Math_max_def)

lemma sentenceCount_alt:
  "sentenceCount text = max 1 (of_nat (length (sentenceEnds text)))"
  by (simp add: sentenceCount_def Math_max_def matchSentenceEnds_def orEmpty_def Let_def)

lemma shortText_words: "length (splitSpaces [] (normalizeText shortText)) = 3"
  by (simp add: shortText_def utf16_def normalizeText_def trim_def isSpace_def)

lemma normalizeText_nonempty:
  "30 \<le> length (splitSpaces [] (normalizeText body)) \<Longrightarrow> normalizeText body \<noteq> []"
  by (cases "normalizeText body") auto

lemma sentenceCount_pos: "1 \<le> sentenceCount s"
  by (simp add: sentenceCount_def Math_max_def)

lemma clamp_max_min: "Math_max 0 (Math_min 100 x) = clamp 0 100 x"
  by (simp add: Math_max_def Math_min_def clamp_def max_def min_def)

lemma clamp_range: "0 \<le> clamp 0 100 x \<and> clamp 0 100 x \<le> 100"
  by (simp add: clamp_def)

lemma analyzeReadability_enough:
  assumes "30 \<le> length (splitSpaces [] (normalizeText body))"
  shows "analyzeReadability body =
    (let s = normalizeText body; ws = splitSpaces [] s;
         wps = fdiv (of_nat (length ws)) (sentenceCount s);
         cpw = fdiv (of_nat (length (concat ws))) (of_nat (length ws));
         spw = fdiv (of_nat (totalSyllables ws)) (of_nat (length ws));
         ease = spec_fleschEase (of_nat (length ws)) (sentenceCount s) (of_nat (totalSyllables ws))
     in Inr \<lparr>score = scoreOfEase ease, fleschEase = Some ease,
          fleschKincaid = Some (Math_max 0 (toFixedNumber 1
                (fsub (fadd (fmul (literal 39 2) wps) (fmul (literal 118 1) spw)) (literal 1559 2)))),
          avgSentenceLen = Some (toFixedNumber 1 wps),
          avgWordLen = Some (toFixedNumber 1 cpw),
          syllablesPerWord = Some (toFixedNumber 2 spw),
          message = None\<rparr>)"
proof -
  have ne: "normalizeText body \<noteq> []" using assms by (rule normalizeText_nonempty)
  have s: "sentenceCount (normalizeText body) \<noteq> 0"
    using sentenceCount_pos [of "normalizeText body"] by auto
  have w: "(of_nat (length (splitSpaces [] (normalizeText body))) :: rat) \<noteq> 0"
    using assms by auto
  have nl: "\<not> length (splitSpaces [] (normalizeText body)) < 30" using assms by simp
  show ?thesis
    unfolding analyzeReadability_def Let_def
    by (simp only: ne nl s w divide_def andThen_def if_False sum.case simp_thms
        spec_fleschEase_def clamp_max_min)
qed

lemma shortText_nonempty: "normalizeText shortText \<noteq> []"
  using shortText_words by (cases "normalizeText shortText") auto

section \<open>Rounding certificates\<close>

text \<open>
  \<open>toDouble x\<close> is the number \<open>m / 2^k\<close> with a 53-bit \<open>m\<close> nearest to \<open>x\<close>, the even
  \<open>m\<close> of two equally near: a rounding is checked by comparing \<open>x * 2^k\<close> with \<open>m\<close>.
\<close>

lemma binaryExponent_unique:
  assumes x: "0 < x" and lo: "power_int 2 b \<le> x" and hi: "x < power_int 2 (b + 1)"
  shows "binaryExponent x = b"
proof -
  define e where "e = binaryExponent x"
  have eb: "power_int 2 e \<le> x" "x < power_int 2 (e + 1)"
    using binaryExponent_bounds [OF x] by (simp_all add: e_def)
  have "power_int (2::rat) e < power_int 2 (b + 1)" using eb(1) hi by linarith
  then have "e < b + 1"
    by (metis linorder_not_less one_le_numeral power_int_increasing)
  moreover have "power_int (2::rat) b < power_int 2 (e + 1)" using eb(2) lo by linarith
  then have "b < e + 1"
    by (metis linorder_not_less one_le_numeral power_int_increasing)
  ultimately show ?thesis by (simp add: e_def)
qed

lemma tiesToEven_near:
  assumes "\<bar>y - of_int n\<bar> < 1 / 2 \<or> (\<bar>y - of_int n\<bar> = 1 / 2 \<and> even n)"
  shows "tiesToEven y = n"
proof (cases "of_int n \<le> y")
  case True
  then have "of_int n \<le> y \<and> y < of_int n + 1" using assms by linarith
  then have f: "\<lfloor>y\<rfloor> = n" by (simp add: floor_eq_iff)
  have "y - of_int n < 1 / 2 \<or> (y - of_int n = 1 / 2 \<and> even n)"
    using assms True by linarith
  then show ?thesis using f by (auto simp: tiesToEven_def Let_def)
next
  case False
  then have "of_int n - 1 \<le> y \<and> y < of_int n" using assms by linarith
  then have "of_int (n - 1) \<le> y \<and> y < of_int (n - 1) + 1" by simp
  then have f: "\<lfloor>y\<rfloor> = n - 1" by (simp only: floor_eq_iff)
  have "1 / 2 < y - (of_int n - 1) \<or> (y - (of_int n - 1) = 1 / 2 \<and> even n)"
    using assms False by linarith
  then have "1 / 2 < y - of_int (n - 1) \<or> (y - of_int (n - 1) = 1 / 2 \<and> odd (n - 1))"
    by simp
  then show ?thesis using f by (auto simp: tiesToEven_def Let_def)
qed

lemma toDouble_nearest:
  assumes m: "2 ^ 52 \<le> m" "m < 2 ^ 53"
    and near: "\<bar>x * 2 ^ k - of_int m\<bar> < 1 / 2 \<or> (\<bar>x * 2 ^ k - of_int m\<bar> = 1 / 2 \<and> even m)"
    and edge: "m = 2 ^ 52 \<longrightarrow> of_int m \<le> x * 2 ^ k"
  shows "toDouble x = of_int m / 2 ^ k"
proof -
  define y where "y = x * 2 ^ k"
  define M :: rat where "M = of_int m"
  have M1: "m \<noteq> 2 ^ 52 \<Longrightarrow> 2 ^ 52 + 1 \<le> M" using m(1) by (simp add: M_def)
  have M2: "M + 1 \<le> 2 ^ 53" using m(2) by (simp add: M_def)
  have M3: "m = 2 ^ 52 \<Longrightarrow> M = 2 ^ 52" by (simp add: M_def)
  have near': "\<bar>y - M\<bar> \<le> 1 / 2" using near by (auto simp: y_def M_def)
  have edge': "m = 2 ^ 52 \<Longrightarrow> M \<le> y" using edge by (simp add: y_def M_def)
  have lo: "2 ^ 52 \<le> y"
  proof (cases "m = 2 ^ 52")
    case True
    then show ?thesis using edge' M3 by simp
  next
    case False
    then show ?thesis using M1 near' by linarith
  qed
  have hi: "y < 2 ^ 53" using M2 near' by linarith
  have p: "(0::rat) < 2 ^ k" by simp
  have x: "x = y / 2 ^ k" by (simp add: y_def)
  have xpos: "0 < x" using lo p by (simp add: x)
  have pw: "\<And>j::nat. power_int (2::rat) (int j - int k) = 2 ^ j / 2 ^ k"
    by (simp add: power_int_diff)
  have "power_int 2 (52 - int k) \<le> x"
    using lo p pw [of 52] by (simp add: x divide_right_mono)
  moreover have "x < power_int 2 (52 - int k + 1)"
  proof -
    have "x < 2 ^ 53 / 2 ^ k" using hi p by (simp add: x divide_strict_right_mono)
    moreover have "52 - int k + 1 = int 53 - int k" by simp
    ultimately show ?thesis using pw [of 53] by (simp only:)
  qed
  ultimately have e: "binaryExponent x = 52 - int k"
    using xpos by (intro binaryExponent_unique)
  have "power_int (2::rat) (binaryExponent x - 52) = power_int 2 (- int k)"
    by (simp add: e)
  then have u: "power_int (2::rat) (binaryExponent x - 52) = 1 / 2 ^ k"
    by (simp add: power_int_minus field_simps)
  have "tiesToEven (x * 2 ^ k) = m" using near by (rule tiesToEven_near)
  then show ?thesis using xpos by (simp add: toDouble_def Let_def u)
qed

lemma toFixedNumber_nearest:
  assumes "0 \<le> x" and "x < 10 ^ 21"
    and "of_int n \<le> x * 10 ^ d + 1 / 2" and "x * 10 ^ d + 1 / 2 < of_int n + 1"
  shows "toFixedNumber d x = toDouble (of_int n / 10 ^ d)"
proof -
  have f: "\<lfloor>x * 10 ^ d + 1 / 2\<rfloor> = n" using assms(3,4) by (simp add: floor_eq_iff)
  show ?thesis
  proof (cases "x = 0")
    case True
    then have "of_int n < (1::rat)" "(-1::rat) < of_int n" using assms(3,4) by simp_all
    then have "(of_int n :: rat) < of_int 1" "(of_int (- 1) :: rat) < of_int n" by simp_all
    then have "n < 1" "- 1 < n" by (simp_all only: of_int_less_iff)
    then have "n = 0" by simp
    then show ?thesis using True by (simp add: toFixedNumber_def toDouble_def)
  next
    case False
    then have "\<bar>x\<bar> = x" "sgn x = 1" using assms(1) by simp_all
    then show ?thesis using assms(2) f by (simp add: toFixedNumber_def Let_def)
  qed
qed


lemma isSpace_low: "c \<le> 0x7F \<Longrightarrow> isSpace c = (c = 0x20 \<or> (0x09 \<le> c \<and> c \<le> 0x0D))"
  unfolding isSpace_def by (auto simp: word_le_nat_alt word_unat_eq_iff)

lemma trim_id: "s \<noteq> [] \<Longrightarrow> \<not> isSpace (hd s) \<Longrightarrow> \<not> isSpace (last s) \<Longrightarrow> trim s = s"
proof -
  assume s: "s \<noteq> []" and h: "\<not> isSpace (hd s)" and l: "\<not> isSpace (last s)"
  have "dropWhile isSpace s = s" using s h by (cases s) auto
  moreover have "dropWhile isSpace (rev s) = rev s"
    using s l by (cases "rev s") (auto simp: last_rev [symmetric] hd_rev)
  ultimately show ?thesis by (simp add: trim_def)
qed

section \<open>Two worked examples\<close>

text \<open>
  The report of \<open>analyzeReadability\<close> on two texts at the boundary of the score: one
  with a Flesch Reading Ease of exactly 60, one with 59.9. Every rounding of the
  computation is checked with the facts above.
\<close>

lemma literal_206835: "literal 206835 3 = 7277359600993567 / 35184372088832"
  unfolding literal_def
  using toDouble_nearest [of 7277359600993567 "206835 / 10 ^ 3" 45] by simp


lemma literal_1015: "literal 1015 3 = 4571153621781053 / 4503599627370496"
  unfolding literal_def
  using toDouble_nearest [of 4571153621781053 "1015 / 10 ^ 3" 52] by simp


lemma literal_846: "literal 846 1 = 2976597878715187 / 35184372088832"
  unfolding literal_def
  using toDouble_nearest [of 5953195757430374 "846 / 10 ^ 1" 46] by simp


lemma literal_39: "literal 39 2 = 3512807709348987 / 9007199254740992"
  unfolding literal_def
  using toDouble_nearest [of 7025615418697974 "39 / 10 ^ 2" 54] by simp


lemma literal_118: "literal 118 1 = 3321404725185741 / 281474976710656"
  unfolding literal_def
  using toDouble_nearest [of 6642809450371482 "118 / 10 ^ 1" 49] by simp


lemma literal_1559: "literal 1559 2 = 4388194886919127 / 281474976710656"
  unfolding literal_def
  using toDouble_nearest [of 8776389773838254 "1559 / 10 ^ 2" 49] by simp


lemma literal_599: "literal 599 1 = 8430175552484147 / 140737488355328"
  unfolding literal_def
  using toDouble_nearest [of 8430175552484147 "599 / 10 ^ 1" 47] by simp


lemma syllables_1: "countSyllables [82, 111, 98, 111, 116, 115] = 2"
  by (simp add: countSyllables_def toLowerCase_def lowerUnit_def isLower_def
      stripTrailingE_def matchVowelGroups_def isVowel_def Let_def)

lemma syllables_2: "countSyllables [105, 110, 100, 101, 120] = 2"
  by (simp add: countSyllables_def toLowerCase_def lowerUnit_def isLower_def
      stripTrailingE_def matchVowelGroups_def isVowel_def Let_def)

lemma syllables_3: "countSyllables [112, 97, 103, 101, 115, 46] = 2"
  by (simp add: countSyllables_def toLowerCase_def lowerUnit_def isLower_def
      stripTrailingE_def matchVowelGroups_def isVowel_def Let_def)

lemma syllables_4: "countSyllables [85, 115, 101, 114, 115] = 2"
  by (simp add: countSyllables_def toLowerCase_def lowerUnit_def isLower_def
      stripTrailingE_def matchVowelGroups_def isVowel_def Let_def)

lemma syllables_5: "countSyllables [118, 105, 115, 105, 116] = 2"
  by (simp add: countSyllables_def toLowerCase_def lowerUnit_def isLower_def
      stripTrailingE_def matchVowelGroups_def isVowel_def Let_def)

lemma syllables_6: "countSyllables [111, 102, 116, 101, 110, 46] = 2"
  by (simp add: countSyllables_def toLowerCase_def lowerUnit_def isLower_def
      stripTrailingE_def matchVowelGroups_def isVowel_def Let_def)

lemma syllables_7: "countSyllables [84, 105, 116, 108, 101, 115] = 2"
  by (simp add: countSyllables_def toLowerCase_def lowerUnit_def isLower_def
      stripTrailingE_def matchVowelGroups_def isVowel_def Let_def)

lemma syllables_8: "countSyllables [103, 117, 105, 100, 101] = 1"
  by (simp add: countSyllables_def toLowerCase_def lowerUnit_def isLower_def
      stripTrailingE_def matchVowelGroups_def isVowel_def Let_def)

lemma syllables_9: "countSyllables [114, 101, 97, 100, 101, 114, 115, 46] = 2"
  by (simp add: countSyllables_def toLowerCase_def lowerUnit_def isLower_def
      stripTrailingE_def matchVowelGroups_def isVowel_def Let_def)

lemma syllables_10: "countSyllables [76, 105, 110, 107, 115] = 1"
  by (simp add: countSyllables_def toLowerCase_def lowerUnit_def isLower_def
      stripTrailingE_def matchVowelGroups_def isVowel_def Let_def)

lemma syllables_11: "countSyllables [98, 117, 105, 108, 100] = 1"
  by (simp add: countSyllables_def toLowerCase_def lowerUnit_def isLower_def
      stripTrailingE_def matchVowelGroups_def isVowel_def Let_def)

lemma syllables_12: "countSyllables [116, 114, 117, 115, 116, 46] = 1"
  by (simp add: countSyllables_def toLowerCase_def lowerUnit_def isLower_def
      stripTrailingE_def matchVowelGroups_def isVowel_def Let_def)

lemma syllables_13: "countSyllables [67, 111, 110, 116, 101, 110, 116] = 2"
  by (simp add: countSyllables_def toLowerCase_def lowerUnit_def isLower_def
      stripTrailingE_def matchVowelGroups_def isVowel_def Let_def)

lemma syllables_14: "countSyllables [101, 97, 114, 110, 115] = 1"
  by (simp add: countSyllables_def toLowerCase_def lowerUnit_def isLower_def
      stripTrailingE_def matchVowelGroups_def isVowel_def Let_def)

lemma syllables_15: "countSyllables [116, 114, 97, 102, 102, 105, 99, 46] = 2"
  by (simp add: countSyllables_def toLowerCase_def lowerUnit_def isLower_def
      stripTrailingE_def matchVowelGroups_def isVowel_def Let_def)

lemma syllables_16: "countSyllables [83, 112, 101, 101, 100] = 1"
  by (simp add: countSyllables_def toLowerCase_def lowerUnit_def isLower_def
      stripTrailingE_def matchVowelGroups_def isVowel_def Let_def)

lemma syllables_17: "countSyllables [104, 101, 108, 112, 115] = 1"
  by (simp add: countSyllables_def toLowerCase_def lowerUnit_def isLower_def
      stripTrailingE_def matchVowelGroups_def isVowel_def Let_def)

lemma syllables_18: "countSyllables [114, 97, 110, 107, 105, 110, 103, 46] = 2"
  by (simp add: countSyllables_def toLowerCase_def lowerUnit_def isLower_def
      stripTrailingE_def matchVowelGroups_def isVowel_def Let_def)

lemma syllables_19: "countSyllables [73, 109, 97, 103, 101, 115] = 3"
  by (simp add: countSyllables_def toLowerCase_def lowerUnit_def isLower_def
      stripTrailingE_def matchVowelGroups_def isVowel_def Let_def)

lemma syllables_20: "countSyllables [110, 101, 101, 100] = 1"
  by (simp add: countSyllables_def toLowerCase_def lowerUnit_def isLower_def
      stripTrailingE_def matchVowelGroups_def isVowel_def Let_def)

lemma syllables_21: "countSyllables [108, 97, 98, 101, 108, 115, 46] = 2"
  by (simp add: countSyllables_def toLowerCase_def lowerUnit_def isLower_def
      stripTrailingE_def matchVowelGroups_def isVowel_def Let_def)

lemma syllables_22: "countSyllables [83, 101, 97, 114, 99, 104] = 1"
  by (simp add: countSyllables_def toLowerCase_def lowerUnit_def isLower_def
      stripTrailingE_def matchVowelGroups_def isVowel_def Let_def)

lemma syllables_23: "countSyllables [101, 110, 103, 105, 110, 101, 115] = 3"
  by (simp add: countSyllables_def toLowerCase_def lowerUnit_def isLower_def
      stripTrailingE_def matchVowelGroups_def isVowel_def Let_def)

lemma syllables_24: "countSyllables [99, 114, 97, 119, 108, 46] = 1"
  by (simp add: countSyllables_def toLowerCase_def lowerUnit_def isLower_def
      stripTrailingE_def matchVowelGroups_def isVowel_def Let_def)

lemma syllables_25: "countSyllables [87, 114, 105, 116, 101, 114, 115] = 2"
  by (simp add: countSyllables_def toLowerCase_def lowerUnit_def isLower_def
      stripTrailingE_def matchVowelGroups_def isVowel_def Let_def)

lemma syllables_26: "countSyllables [101, 100, 105, 116] = 2"
  by (simp add: countSyllables_def toLowerCase_def lowerUnit_def isLower_def
      stripTrailingE_def matchVowelGroups_def isVowel_def Let_def)

lemma syllables_27: "countSyllables [100, 114, 97, 102, 116, 115, 46] = 1"
  by (simp add: countSyllables_def toLowerCase_def lowerUnit_def isLower_def
      stripTrailingE_def matchVowelGroups_def isVowel_def Let_def)

lemma syllables_28: "countSyllables [86, 105, 115, 105, 116, 111, 114, 115] = 3"
  by (simp add: countSyllables_def toLowerCase_def lowerUnit_def isLower_def
      stripTrailingE_def matchVowelGroups_def isVowel_def Let_def)

lemma syllables_29: "countSyllables [115, 99, 97, 110] = 1"
  by (simp add: countSyllables_def toLowerCase_def lowerUnit_def isLower_def
      stripTrailingE_def matchVowelGroups_def isVowel_def Let_def)

lemma syllables_30: "countSyllables [108, 97, 115, 116, 105, 110, 103] = 2"
  by (simp add: countSyllables_def toLowerCase_def lowerUnit_def isLower_def
      stripTrailingE_def matchVowelGroups_def isVowel_def Let_def)

lemma syllables_31: "countSyllables [109, 111, 98, 105, 108, 101] = 2"
  by (simp add: countSyllables_def toLowerCase_def lowerUnit_def isLower_def
      stripTrailingE_def matchVowelGroups_def isVowel_def Let_def)

lemma syllables_32: "countSyllables [99, 114, 97, 119, 108] = 1"
  by (simp add: countSyllables_def toLowerCase_def lowerUnit_def isLower_def
      stripTrailingE_def matchVowelGroups_def isVowel_def Let_def)

lemma syllables_33: "countSyllables [102, 97, 115, 116, 46] = 1"
  by (simp add: countSyllables_def toLowerCase_def lowerUnit_def isLower_def
      stripTrailingE_def matchVowelGroups_def isVowel_def Let_def)

lemmas syllables = syllables_1 syllables_2 syllables_3 syllables_4 syllables_5 syllables_6 syllables_7 syllables_8 syllables_9 syllables_10 syllables_11 syllables_12 syllables_13 syllables_14 syllables_15 syllables_16 syllables_17 syllables_18 syllables_19 syllables_20 syllables_21 syllables_22 syllables_23 syllables_24 syllables_25 syllables_26 syllables_27 syllables_28 syllables_29 syllables_30 syllables_31 syllables_32 syllables_33

lemma easyText_units: "easyText = [82, 111, 98, 111, 116, 115, 32, 105, 110, 100, 101, 120, 32, 112, 97, 103, 101, 115, 46, 32, 85, 115, 101, 114, 115, 32, 118, 105, 115, 105, 116, 32, 111, 102, 116, 101, 110, 46, 32, 84, 105, 116, 108, 101, 115, 32, 103, 117, 105, 100, 101, 32, 114, 101, 97, 100, 101, 114, 115, 46, 32, 76, 105, 110, 107, 115, 32, 98, 117, 105, 108, 100, 32, 116, 114, 117, 115, 116, 46, 32, 67, 111, 110, 116, 101, 110, 116, 32, 101, 97, 114, 110, 115, 32, 116, 114, 97, 102, 102, 105, 99, 46, 32, 83, 112, 101, 101, 100, 32, 104, 101, 108, 112, 115, 32, 114, 97, 110, 107, 105, 110, 103, 46, 32, 73, 109, 97, 103, 101, 115, 32, 110, 101, 101, 100, 32, 108, 97, 98, 101, 108, 115, 46, 32, 83, 101, 97, 114, 99, 104, 32, 101, 110, 103, 105, 110, 101, 115, 32, 99, 114, 97, 119, 108, 46, 32, 87, 114, 105, 116, 101, 114, 115, 32, 101, 100, 105, 116, 32, 100, 114, 97, 102, 116, 115, 46, 32, 86, 105, 115, 105, 116, 111, 114, 115, 32, 115, 99, 97, 110, 32, 112, 97, 103, 101, 115, 46]"
  by (simp add: easyText_def utf16_def)

lemma easyText_words:
  "splitSpaces [] (normalizeText easyText) =
     [[82, 111, 98, 111, 116, 115],
      [105, 110, 100, 101, 120],
      [112, 97, 103, 101, 115, 46],
      [85, 115, 101, 114, 115],
      [118, 105, 115, 105, 116],
      [111, 102, 116, 101, 110, 46],
      [84, 105, 116, 108, 101, 115],
      [103, 117, 105, 100, 101],
      [114, 101, 97, 100, 101, 114, 115, 46],
      [76, 105, 110, 107, 115],
      [98, 117, 105, 108, 100],
      [116, 114, 117, 115, 116, 46],
      [67, 111, 110, 116, 101, 110, 116],
      [101, 97, 114, 110, 115],
      [116, 114, 97, 102, 102, 105, 99, 46],
      [83, 112, 101, 101, 100],
      [104, 101, 108, 112, 115],
      [114, 97, 110, 107, 105, 110, 103, 46],
      [73, 109, 97, 103, 101, 115],
      [110, 101, 101, 100],
      [108, 97, 98, 101, 108, 115, 46],
      [83, 101, 97, 114, 99, 104],
      [101, 110, 103, 105, 110, 101, 115],
      [99, 114, 97, 119, 108, 46],
      [87, 114, 105, 116, 101, 114, 115],
      [101, 100, 105, 116],
      [100, 114, 97, 102, 116, 115, 46],
      [86, 105, 115, 105, 116, 111, 114, 115],
      [115, 99, 97, 110],
      [112, 97, 103, 101, 115, 46]]"
  unfolding easyText_units by (simp add: normalizeText_def trim_id isSpace_low)

lemma easyText_sentences: "sentenceCount (normalizeText easyText) = 10"
  unfolding easyText_units
  by (simp add: normalizeText_def trim_id isSpace_low sentenceCount_def
      matchSentenceEnds_def sentenceEndAt_def isTerminator_def orEmpty_def
      Math_max_def Let_def)

lemma easyText_syllables: "totalSyllables (splitSpaces [] (normalizeText easyText)) = 51"
  unfolding easyText_words by (simp add: totalSyllables_def syllables)

lemma easyText_length: "length (splitSpaces [] (normalizeText easyText)) = 30"
  unfolding easyText_words by simp

lemma easyText_chars: "length (concat (splitSpaces [] (normalizeText easyText))) = 178"
  unfolding easyText_words by simp

lemma easyText_wps: "fdiv 30 10 = 3"
  unfolding fdiv_def
  using toDouble_nearest [of 6755399441055744 "30 / 10" 51] by simp

lemma easyText_cpw: "fdiv 178 30 = 1670084861816559 / 281474976710656"
  unfolding fdiv_def
  using toDouble_nearest [of 6680339447266236 "178 / 30" 50] by simp

lemma easyText_spw: "fdiv 51 30 = 7656119366529843 / 4503599627370496"
  unfolding fdiv_def
  using toDouble_nearest [of 7656119366529843 "51 / 30" 52] by simp

lemma easyText_p1: "fmul (4571153621781053 / 4503599627370496) (3) = 1714182608167895 / 562949953421312"
  unfolding fmul_def
  using toDouble_nearest [of 6856730432671580 "(4571153621781053 / 4503599627370496) * (3)" 51] by simp

lemma easyText_d1: "fsub (7277359600993567 / 35184372088832) (1714182608167895 / 562949953421312) = 3585111593991537 / 17592186044416"
  unfolding fsub_def
  using toDouble_nearest [of 7170223187983074 "(7277359600993567 / 35184372088832) - (1714182608167895 / 562949953421312)" 45] by simp

lemma easyText_p2: "fmul (2976597878715187 / 35184372088832) (7656119366529843 / 4503599627370496) = 2530108196907909 / 17592186044416"
  unfolding fmul_def
  using toDouble_nearest [of 5060216393815818 "(2976597878715187 / 35184372088832) * (7656119366529843 / 4503599627370496)" 45] by simp

lemma easyText_raw: "fsub (3585111593991537 / 17592186044416) (2530108196907909 / 17592186044416) = 263750849270907 / 4398046511104"
  unfolding fsub_def
  using toDouble_nearest [of 8440027176669024 "(3585111593991537 / 17592186044416) - (2530108196907909 / 17592186044416)" 47] by simp

lemma easyText_g1: "fmul (3512807709348987 / 9007199254740992) (3) = 658651445502935 / 562949953421312"
  unfolding fmul_def
  using toDouble_nearest [of 5269211564023480 "(3512807709348987 / 9007199254740992) * (3)" 52] by simp

lemma easyText_g2: "fmul (3321404725185741 / 281474976710656) (7656119366529843 / 4503599627370496) = 352899252050985 / 17592186044416"
  unfolding fmul_def
  using toDouble_nearest [of 5646388032815760 "(3321404725185741 / 281474976710656) * (7656119366529843 / 4503599627370496)" 48] by simp

lemma easyText_g3: "fadd (658651445502935 / 562949953421312) (352899252050985 / 17592186044416) = 1493928438891807 / 70368744177664"
  unfolding fadd_def
  using toDouble_nearest [of 5975713755567228 "(658651445502935 / 562949953421312) + (352899252050985 / 17592186044416)" 48] by simp

lemma easyText_g4: "fsub (1493928438891807 / 70368744177664) (4388194886919127 / 281474976710656) = 1587518868648101 / 281474976710656"
  unfolding fsub_def
  using toDouble_nearest [of 6350075474592404 "(1493928438891807 / 70368744177664) - (4388194886919127 / 281474976710656)" 50] by simp

lemma easyText_ease: "toFixedNumber 1 (263750849270907 / 4398046511104) = 60"
  using toFixedNumber_nearest [of "263750849270907 / 4398046511104" 600 1]
    toDouble_nearest [of 8444249301319680 "600 / 10 ^ 1" 47]
  by simp

lemma easyText_grade: "toFixedNumber 1 (1587518868648101 / 281474976710656) = 3152519739159347 / 562949953421312"
  using toFixedNumber_nearest [of "1587518868648101 / 281474976710656" 56 1]
    toDouble_nearest [of 6305039478318694 "56 / 10 ^ 1" 50]
  by simp

lemma easyText_asl: "toFixedNumber 1 (3) = 3"
  using toFixedNumber_nearest [of "3" 30 1]
    toDouble_nearest [of 6755399441055744 "30 / 10 ^ 1" 51]
  by simp

lemma easyText_awl: "toFixedNumber 1 (1670084861816559 / 281474976710656) = 3321404725185741 / 562949953421312"
  using toFixedNumber_nearest [of "1670084861816559 / 281474976710656" 59 1]
    toDouble_nearest [of 6642809450371482 "59 / 10 ^ 1" 50]
  by simp

lemma easyText_spw2: "toFixedNumber 2 (7656119366529843 / 4503599627370496) = 7656119366529843 / 4503599627370496"
  using toFixedNumber_nearest [of "7656119366529843 / 4503599627370496" 170 2]
    toDouble_nearest [of 7656119366529843 "170 / 10 ^ 2" 52]
  by simp

lemma easyText_report:
  "analyzeReadability easyText =
     Inr \<lparr>score = 100, fleschEase = Some (60),
          fleschKincaid = Some (3152519739159347 / 562949953421312), avgSentenceLen = Some (3),
          avgWordLen = Some (3321404725185741 / 562949953421312),
          syllablesPerWord = Some (7656119366529843 / 4503599627370496), message = None\<rparr>"
proof -
  have h: "30 \<le> length (splitSpaces [] (normalizeText easyText))"
    by (simp add: easyText_length)
  have c: "clamp 0 100 (60) = 60" by (simp add: clamp_def)
  have k: "Math_max 0 (3152519739159347 / 562949953421312) = 3152519739159347 / 562949953421312" by (simp add: Math_max_def)
  have s: "scoreOfEase (60) = 100" by (simp add: scoreOfEase_def)
  show ?thesis
    by (simp only: analyzeReadability_enough [OF h] Let_def spec_fleschEase_def
        easyText_length easyText_chars easyText_sentences easyText_syllables of_nat_numeral
        literal_206835 literal_1015 literal_846 literal_39 literal_118 literal_1559
        easyText_wps easyText_cpw easyText_spw easyText_p1 easyText_d1 easyText_p2 easyText_raw easyText_g1 easyText_g2 easyText_g3 easyText_g4 easyText_ease easyText_grade easyText_asl easyText_awl easyText_spw2 c k s)
qed

lemma harderText_units: "harderText = [82, 111, 98, 111, 116, 115, 32, 105, 110, 100, 101, 120, 32, 112, 97, 103, 101, 115, 46, 32, 85, 115, 101, 114, 115, 32, 118, 105, 115, 105, 116, 32, 111, 102, 116, 101, 110, 46, 32, 84, 105, 116, 108, 101, 115, 32, 103, 117, 105, 100, 101, 32, 114, 101, 97, 100, 101, 114, 115, 46, 32, 76, 105, 110, 107, 115, 32, 98, 117, 105, 108, 100, 32, 108, 97, 115, 116, 105, 110, 103, 32, 116, 114, 117, 115, 116, 46, 32, 67, 111, 110, 116, 101, 110, 116, 32, 101, 97, 114, 110, 115, 32, 116, 114, 97, 102, 102, 105, 99, 46, 32, 83, 112, 101, 101, 100, 32, 104, 101, 108, 112, 115, 32, 109, 111, 98, 105, 108, 101, 32, 114, 97, 110, 107, 105, 110, 103, 46, 32, 73, 109, 97, 103, 101, 115, 32, 110, 101, 101, 100, 32, 108, 97, 98, 101, 108, 115, 46, 32, 83, 101, 97, 114, 99, 104, 32, 101, 110, 103, 105, 110, 101, 115, 32, 99, 114, 97, 119, 108, 32, 102, 97, 115, 116, 46, 32, 87, 114, 105, 116, 101, 114, 115, 32, 101, 100, 105, 116, 32, 100, 114, 97, 102, 116, 115, 46, 32, 86, 105, 115, 105, 116, 111, 114, 115, 32, 115, 99, 97, 110, 32, 112, 97, 103, 101, 115, 46]"
  by (simp add: harderText_def utf16_def)

lemma harderText_words:
  "splitSpaces [] (normalizeText harderText) =
     [[82, 111, 98, 111, 116, 115],
      [105, 110, 100, 101, 120],
      [112, 97, 103, 101, 115, 46],
      [85, 115, 101, 114, 115],
      [118, 105, 115, 105, 116],
      [111, 102, 116, 101, 110, 46],
      [84, 105, 116, 108, 101, 115],
      [103, 117, 105, 100, 101],
      [114, 101, 97, 100, 101, 114, 115, 46],
      [76, 105, 110, 107, 115],
      [98, 117, 105, 108, 100],
      [108, 97, 115, 116, 105, 110, 103],
      [116, 114, 117, 115, 116, 46],
      [67, 111, 110, 116, 101, 110, 116],
      [101, 97, 114, 110, 115],
      [116, 114, 97, 102, 102, 105, 99, 46],
      [83, 112, 101, 101, 100],
      [104, 101, 108, 112, 115],
      [109, 111, 98, 105, 108, 101],
      [114, 97, 110, 107, 105, 110, 103, 46],
      [73, 109, 97, 103, 101, 115],
      [110, 101, 101, 100],
      [108, 97, 98, 101, 108, 115, 46],
      [83, 101, 97, 114, 99, 104],
      [101, 110, 103, 105, 110, 101, 115],
      [99, 114, 97, 119, 108],
      [102, 97, 115, 116, 46],
      [87, 114, 105, 116, 101, 114, 115],
      [101, 100, 105, 116],
      [100, 114, 97, 102, 116, 115, 46],
      [86, 105, 115, 105, 116, 111, 114, 115],
      [115, 99, 97, 110],
      [112, 97, 103, 101, 115, 46]]"
  unfolding harderText_units by (simp add: normalizeText_def trim_id isSpace_low)

lemma harderText_sentences: "sentenceCount (normalizeText harderText) = 10"
  unfolding harderText_units
  by (simp add: normalizeText_def trim_id isSpace_low sentenceCount_def
      matchSentenceEnds_def sentenceEndAt_def isTerminator_def orEmpty_def
      Math_max_def Let_def)

lemma harderText_syllables: "totalSyllables (splitSpaces [] (normalizeText harderText)) = 56"
  unfolding harderText_words by (simp add: totalSyllables_def syllables)

lemma harderText_length: "length (splitSpaces [] (normalizeText harderText)) = 33"
  unfolding harderText_words by simp

lemma harderText_chars: "length (concat (splitSpaces [] (normalizeText harderText))) = 195"
  unfolding harderText_words by simp

lemma harderText_wps: "fdiv 33 10 = 3715469692580659 / 1125899906842624"
  unfolding fdiv_def
  using toDouble_nearest [of 7430939385161318 "33 / 10" 51] by simp

lemma harderText_cpw: "fdiv 195 33 = 6653044904070051 / 1125899906842624"
  unfolding fdiv_def
  using toDouble_nearest [of 6653044904070051 "195 / 33" 50] by simp

lemma harderText_spw: "fdiv 56 33 = 7642472094931751 / 4503599627370496"
  unfolding fdiv_def
  using toDouble_nearest [of 7642472094931751 "56 / 33" 52] by simp

lemma harderText_p1: "fmul (4571153621781053 / 4503599627370496) (3715469692580659 / 1125899906842624) = 7542403475938737 / 2251799813685248"
  unfolding fmul_def
  using toDouble_nearest [of 7542403475938737 "(4571153621781053 / 4503599627370496) * (3715469692580659 / 1125899906842624)" 51] by simp

lemma harderText_d1: "fsub (7277359600993567 / 35184372088832) (7542403475938737 / 2251799813685248) = 894938693335253 / 4398046511104"
  unfolding fsub_def
  using toDouble_nearest [of 7159509546682024 "(7277359600993567 / 35184372088832) - (7542403475938737 / 2251799813685248)" 45] by simp

lemma harderText_p2: "fmul (2976597878715187 / 35184372088832) (7642472094931751 / 4503599627370496) = 2525598200121977 / 17592186044416"
  unfolding fmul_def
  using toDouble_nearest [of 5051196400243954 "(2976597878715187 / 35184372088832) * (7642472094931751 / 4503599627370496)" 45] by simp

lemma harderText_raw: "fsub (894938693335253 / 4398046511104) (2525598200121977 / 17592186044416) = 1054156573219035 / 17592186044416"
  unfolding fsub_def
  using toDouble_nearest [of 8433252585752280 "(894938693335253 / 4398046511104) - (2525598200121977 / 17592186044416)" 47] by simp

lemma harderText_g1: "fmul (3512807709348987 / 9007199254740992) (3715469692580659 / 1125899906842624) = 1449033180106457 / 1125899906842624"
  unfolding fmul_def
  using toDouble_nearest [of 5796132720425828 "(3512807709348987 / 9007199254740992) * (3715469692580659 / 1125899906842624)" 52] by simp

lemma harderText_g2: "fmul (3321404725185741 / 281474976710656) (7642472094931751 / 4503599627370496) = 5636323170012167 / 281474976710656"
  unfolding fmul_def
  using toDouble_nearest [of 5636323170012167 "(3321404725185741 / 281474976710656) * (7642472094931751 / 4503599627370496)" 48] by simp

lemma harderText_g3: "fadd (1449033180106457 / 1125899906842624) (5636323170012167 / 281474976710656) = 5998581465038781 / 281474976710656"
  unfolding fadd_def
  using toDouble_nearest [of 5998581465038781 "(1449033180106457 / 1125899906842624) + (5636323170012167 / 281474976710656)" 48] by simp

lemma harderText_g4: "fsub (5998581465038781 / 281474976710656) (4388194886919127 / 281474976710656) = 805193289059827 / 140737488355328"
  unfolding fsub_def
  using toDouble_nearest [of 6441546312478616 "(5998581465038781 / 281474976710656) - (4388194886919127 / 281474976710656)" 50] by simp

lemma harderText_ease: "toFixedNumber 1 (1054156573219035 / 17592186044416) = 8430175552484147 / 140737488355328"
  using toFixedNumber_nearest [of "1054156573219035 / 17592186044416" 599 1]
    toDouble_nearest [of 8430175552484147 "599 / 10 ^ 1" 47]
  by simp

lemma harderText_grade: "toFixedNumber 1 (805193289059827 / 140737488355328) = 6417629469002957 / 1125899906842624"
  using toFixedNumber_nearest [of "805193289059827 / 140737488355328" 57 1]
    toDouble_nearest [of 6417629469002957 "57 / 10 ^ 1" 50]
  by simp

lemma harderText_asl: "toFixedNumber 1 (3715469692580659 / 1125899906842624) = 3715469692580659 / 1125899906842624"
  using toFixedNumber_nearest [of "3715469692580659 / 1125899906842624" 33 1]
    toDouble_nearest [of 7430939385161318 "33 / 10 ^ 1" 51]
  by simp

lemma harderText_awl: "toFixedNumber 1 (6653044904070051 / 1125899906842624) = 3321404725185741 / 562949953421312"
  using toFixedNumber_nearest [of "6653044904070051 / 1125899906842624" 59 1]
    toDouble_nearest [of 6642809450371482 "59 / 10 ^ 1" 50]
  by simp

lemma harderText_spw2: "toFixedNumber 2 (7642472094931751 / 4503599627370496) = 7656119366529843 / 4503599627370496"
  using toFixedNumber_nearest [of "7642472094931751 / 4503599627370496" 170 2]
    toDouble_nearest [of 7656119366529843 "170 / 10 ^ 2" 52]
  by simp

lemma harderText_report:
  "analyzeReadability harderText =
     Inr \<lparr>score = 70, fleschEase = Some (8430175552484147 / 140737488355328),
          fleschKincaid = Some (6417629469002957 / 1125899906842624), avgSentenceLen = Some (3715469692580659 / 1125899906842624),
          avgWordLen = Some (3321404725185741 / 562949953421312),
          syllablesPerWord = Some (7656119366529843 / 4503599627370496), message = None\<rparr>"
proof -
  have h: "30 \<le> length (splitSpaces [] (normalizeText harderText))"
    by (simp add: harderText_length)
  have c: "clamp 0 100 (8430175552484147 / 140737488355328) = 8430175552484147 / 140737488355328" by (simp add: clamp_def)
  have k: "Math_max 0 (6417629469002957 / 1125899906842624) = 6417629469002957 / 1125899906842624" by (simp add: Math_max_def)
  have s: "scoreOfEase (8430175552484147 / 140737488355328) = 70" by (simp add: scoreOfEase_def)
  show ?thesis
    by (simp only: analyzeReadability_enough [OF h] Let_def spec_fleschEase_def
        harderText_length harderText_chars harderText_sentences harderText_syllables of_nat_numeral
        literal_206835 literal_1015 literal_846 literal_39 literal_118 literal_1559
        harderText_wps harderText_cpw harderText_spw harderText_p1 harderText_d1 harderText_p2 harderText_raw harderText_g1 harderText_g2 harderText_g3 harderText_g4 harderText_ease harderText_grade harderText_asl harderText_awl harderText_spw2 c k s)
qed


section \<open>Properties of the readability scorer\<close>

text \<open>
  Claim C1, as the code has it. For every text whose word list has fewer than 30 words
  the report is the degraded one: the message is set, the score is 0, \<open>fleschEase\<close> and
  \<open>fleschKincaid\<close> are \<open>null\<close>, and \<open>avgSentenceLen\<close>, \<open>avgWordLen\<close> and
  \<open>syllablesPerWord\<close> are the number 0 (not \<open>null\<close>), whatever the text contains.
\<close>

theorem degraded_report:
  assumes "length (splitSpaces [] (normalizeText body)) < 30"
  shows "\<exists>r. analyzeReadability body = Inr r \<and> message r \<noteq> None \<and> score r = 0 \<and>
           fleschEase r = None \<and> fleschKincaid r = None \<and> avgSentenceLen r = Some 0 \<and>
           avgWordLen r = Some 0 \<and> syllablesPerWord r = Some 0"
  using assms by (simp add: analyzeReadability_def notEnoughText_def Let_def)

theorem degraded_report_witness:
  "length (splitSpaces [] (normalizeText shortText)) < 30 \<and>
   (\<exists>r. analyzeReadability shortText = Inr r \<and> message r \<noteq> None \<and> score r = 0 \<and>
        fleschEase r = None \<and> fleschKincaid r = None \<and> avgSentenceLen r = Some 0 \<and>
        avgWordLen r = Some 0 \<and> syllablesPerWord r = Some 0)"
proof -
  have h: "length (splitSpaces [] (normalizeText shortText)) < 30"
    by (simp add: shortText_words)
  show ?thesis using h degraded_report [OF h] by simp
qed

text \<open>
  The claim as stated fails: on a text of three words the three averages of the report
  are 0, not \<open>null\<close>.
\<close>

theorem degraded_report_counterexample:
  "length (splitSpaces [] (normalizeText shortText)) < 30 \<and>
   analyzeReadability shortText = Inr notEnoughText \<and>
   avgSentenceLen notEnoughText \<noteq> None \<and> avgWordLen notEnoughText \<noteq> None \<and>
   syllablesPerWord notEnoughText \<noteq> None"
  by (simp add: shortText_words analyzeReadability_def Let_def notEnoughText_def)

text \<open>
  Claim C2. For every text of at least 30 words, \<open>fleschEase\<close> is the Flesch Reading
  Ease formula 206.835 - 1.015 (words / sentences) - 84.6 (syllables / words), evaluated
  in the arithmetic of JavaScript numbers, rounded to one decimal and clamped to the
  interval from 0 to 100; in particular it lies between 0 and 100.
\<close>

theorem fleschEase_formula:
  assumes "30 \<le> length (splitSpaces [] (normalizeText body))"
  shows "\<exists>r e. analyzeReadability body = Inr r \<and> fleschEase r = Some e \<and>
           e = spec_fleschEase (of_nat (length (splitSpaces [] (normalizeText body))))
                 (sentenceCount (normalizeText body))
                 (of_nat (totalSyllables (splitSpaces [] (normalizeText body)))) \<and>
           0 \<le> e \<and> e \<le> 100"
  using analyzeReadability_enough [OF assms] clamp_range
  by (simp add: Let_def spec_fleschEase_def)

theorem fleschEase_formula_witness:
  "30 \<le> length (splitSpaces [] (normalizeText easyText)) \<and>
   spec_fleschEase 30 10 51 = 60 \<and>
   (\<exists>r. analyzeReadability easyText = Inr r \<and> fleschEase r = Some 60)"
proof -
  have h: "30 \<le> length (splitSpaces [] (normalizeText easyText))"
    by (simp add: easyText_length)
  from fleschEase_formula [OF h] obtain r e where
    r: "analyzeReadability easyText = Inr r" and e: "fleschEase r = Some e"
    and f: "e = spec_fleschEase (of_nat (length (splitSpaces [] (normalizeText easyText))))
                 (sentenceCount (normalizeText easyText))
                 (of_nat (totalSyllables (splitSpaces [] (normalizeText easyText))))"
    by blast
  have "Inr r = analyzeReadability easyText" using r by simp
  then have "r = \<lparr>score = 100, fleschEase = Some 60,
          fleschKincaid = Some (3152519739159347 / 562949953421312), avgSentenceLen = Some 3,
          avgWordLen = Some (3321404725185741 / 562949953421312),
          syllablesPerWord = Some (7656119366529843 / 4503599627370496), message = None\<rparr>"
    by (simp only: easyText_report sum.inject)
  then have "fleschEase r = Some 60" by simp
  then have "e = 60" using e by simp
  then have "spec_fleschEase 30 10 51 = 60"
    using f by (simp add: easyText_length easyText_sentences easyText_syllables)
  then show ?thesis using h r \<open>fleschEase r = Some 60\<close> by simp
qed

text \<open>
  Claim C5. For every text of at least 30 words the score is 100 if \<open>fleschEase\<close> is at
  least 60, 70 if it is at least 40 and below 60, 40 if it is at least 20 and below 40,
  and 20 otherwise. At the boundary, a \<open>fleschEase\<close> of exactly 60 gives 100, and 59.9
  gives 70.
\<close>

theorem score_thresholds:
  assumes "30 \<le> length (splitSpaces [] (normalizeText body))"
  shows "(\<exists>r e. analyzeReadability body = Inr r \<and> fleschEase r = Some e \<and>
            score r = (if 60 \<le> e then 100
                       else if 40 \<le> e \<and> e < 60 then 70
                       else if 20 \<le> e \<and> e < 40 then 40
                       else 20)) \<and>
         scoreOfEase 60 = 100 \<and> scoreOfEase (literal 599 1) = 70"
proof -
  have "literal 599 1 = 8430175552484147 / 140737488355328"
    by (rule literal_599)
  then have b: "scoreOfEase 60 = 100 \<and> scoreOfEase (literal 599 1) = 70"
    by (simp add: scoreOfEase_def)
  show ?thesis
    using analyzeReadability_enough [OF assms] b
    by (simp add: Let_def scoreOfEase_def)
qed

theorem score_thresholds_witness:
  "30 \<le> length (splitSpaces [] (normalizeText easyText)) \<and>
   analyzeReadability easyText =
     Inr \<lparr>score = 100, fleschEase = Some 60,
          fleschKincaid = Some (3152519739159347 / 562949953421312), avgSentenceLen = Some 3,
          avgWordLen = Some (3321404725185741 / 562949953421312),
          syllablesPerWord = Some (7656119366529843 / 4503599627370496), message = None\<rparr> \<and>
   analyzeReadability harderText =
     Inr \<lparr>score = 70, fleschEase = Some (literal 599 1),
          fleschKincaid = Some (6417629469002957 / 1125899906842624),
          avgSentenceLen = Some (3715469692580659 / 1125899906842624),
          avgWordLen = Some (3321404725185741 / 562949953421312),
          syllablesPerWord = Some (7656119366529843 / 4503599627370496), message = None\<rparr> \<and>
   scoreOfEase 60 = 100 \<and> scoreOfEase (literal 599 1) = 70"
proof -
  have h: "30 \<le> length (splitSpaces [] (normalizeText easyText))"
    by (simp add: easyText_length)
  have b: "scoreOfEase 60 = 100 \<and> scoreOfEase (literal 599 1) = 70"
    using score_thresholds [OF h] by (elim conjE) (intro conjI)
  show ?thesis
    using h b by (simp only: easyText_report harderText_report literal_599 simp_thms)
qed

text \<open>
  Claim C8. The sentence count used as a divisor is the maximum of 1 and the number of
  sentence ends found, so it is positive; for a text of at least 30 words the word
  count, the other divisor, is positive too, no division meets a zero divisor, and the
  analysis returns a report.
\<close>

theorem divisors_positive:
  assumes "30 \<le> length (splitSpaces [] (normalizeText body))"
  shows "sentenceCount (normalizeText body)
           = max 1 (of_nat (length (sentenceEnds (normalizeText body)))) \<and>
         0 < sentenceCount (normalizeText body) \<and>
         (0::rat) < of_nat (length (splitSpaces [] (normalizeText body))) \<and>
         divide (of_nat (length (splitSpaces [] (normalizeText body))))
                (sentenceCount (normalizeText body)) \<noteq> Inl DivisionByZero \<and>
         divide (of_nat (length (concat (splitSpaces [] (normalizeText body)))))
                (of_nat (length (splitSpaces [] (normalizeText body)))) \<noteq> Inl DivisionByZero \<and>
         divide (of_nat (totalSyllables (splitSpaces [] (normalizeText body))))
                (of_nat (length (splitSpaces [] (normalizeText body)))) \<noteq> Inl DivisionByZero \<and>
         (\<exists>r. analyzeReadability body = Inr r)"
proof -
  have s: "0 < sentenceCount (normalizeText body)"
    using sentenceCount_pos [of "normalizeText body"] by linarith
  have w: "(0::rat) < of_nat (length (splitSpaces [] (normalizeText body)))"
    using assms by (simp only: of_nat_0_less_iff)
  have r: "\<exists>r. analyzeReadability body = Inr r"
    using analyzeReadability_enough [OF assms] by (simp add: Let_def)
  show ?thesis
    using s w r sentenceCount_alt [of "normalizeText body"] by (simp add: divide_def)
qed

theorem divisors_positive_witness:
  "30 \<le> length (splitSpaces [] (normalizeText easyText)) \<and>
   0 < sentenceCount (normalizeText easyText) \<and>
   (\<exists>r. analyzeReadability easyText = Inr r)"
proof -
  have h: "30 \<le> length (splitSpaces [] (normalizeText easyText))"
    by (simp add: easyText_length)
  show ?thesis using h divisors_positive [OF h] by simp
qed

section \<open>Properties of the content statistics\<close>

text \<open>
  Claim C7. For every text (a JavaScript string is shorter than \<open>2^53\<close>), the word
  count is not negative and the reading time is the ceiling of words / 238, but at
  least one minute; so it is at least 1 whenever there are words.
\<close>

theorem readingTime_formula:
  assumes "length text < 2 ^ 53"
  shows "0 \<le> words (countText text) \<and>
         readingTimeMin (countText text)
           = of_int (max 1 \<lceil>(of_nat (words (countText text)) :: rat) / 238\<rceil>) \<and>
         (0 < words (countText text) \<longrightarrow> 1 \<le> readingTimeMin (countText text))"
  using readingTime_exact [OF assms] readingTime_ge_1 [of "text"] by simp

theorem readingTime_formula_witness:
  "length shortText < 2 ^ 53 \<and> words (countText shortText) = 3 \<and>
   readingTimeMin (countText shortText) = 1"
proof -
  have h: "length shortText < 2 ^ 53" by (simp add: shortText_def utf16_def)
  have w: "words (countText shortText) = 3"
    by (simp add: words_countText shortText_words shortText_nonempty)
  show ?thesis using h w readingTime_formula [OF h] by simp
qed

lemma replaceGlobal_value: "fst (replaceGlobal scan w r s) = scan s"
  by (simp add: replaceGlobal_def setLastIndex_def)

lemma matchGlobal_value:
  "fst (matchGlobal scan w r s) = (if scan s = [] then None else Some (scan s))"
  by (simp add: matchGlobal_def setLastIndex_def)

lemma countTextIn_value: "fst (countTextIn w text) = countText text"
  by (simp add: countTextIn_def countText_def normalizeText_def split_def Let_def
      replaceGlobal_value matchGlobal_value splitBy_def matchSentenceEnds_def)

lemma countTextIn_keeps:
  "seoAnalyzerLoaded (snd (countTextIn w text)) = seoAnalyzerLoaded w \<and>
   nextRef w \<le> nextRef (snd (countTextIn w text)) \<and>
   (\<forall>r < nextRef w. regExps (snd (countTextIn w text)) r = regExps w r)"
  by (simp add: countTextIn_def split_def Let_def newRegExp_def replaceGlobal_def
      matchGlobal_def splitBy_def setLastIndex_def)

text \<open>
  Claim C9. \<open>countText\<close> is deterministic and has no hidden state. With the flag of
  the page and the \<open>lastIndex\<close> of every regular expression object passed along as a
  store: the result is the same from any two stores; a second call, made in the store
  the first one left, returns what the first returned; the result is the function
  \<open>countText\<close> of the string alone; and the call leaves the flag and every object that
  existed before it as they were.
\<close>

theorem countText_no_hidden_state:
  "fst (countTextIn w1 text) = fst (countTextIn w2 text) \<and>
   fst (countTextIn (snd (countTextIn w text)) text) = fst (countTextIn w text) \<and>
   fst (countTextIn w text) = countText text \<and>
   seoAnalyzerLoaded (snd (countTextIn w text)) = seoAnalyzerLoaded w \<and>
   (\<forall>r < nextRef w. regExps (snd (countTextIn w text)) r = regExps w r)"
  using countTextIn_keeps [of w "text"] by (simp add: countTextIn_value)

theorem countText_no_hidden_state_witness:
  "regExps (snd (countTextIn sampleStore shortText)) 0 = \<lparr>lastIndex = 7\<rparr> \<and>
   seoAnalyzerLoaded (snd (countTextIn sampleStore shortText)) \<and>
   words (fst (countTextIn (snd (countTextIn sampleStore shortText)) shortText)) = 3"
proof -
  note t = countText_no_hidden_state
    [of sampleStore shortText "snd (countTextIn sampleStore shortText)" sampleStore]
  have n: "(0::nat) < nextRef sampleStore" by (simp add: sampleStore_def)
  have a: "regExps (snd (countTextIn sampleStore shortText)) 0 = regExps sampleStore 0"
    using t n by blast
  have b: "seoAnalyzerLoaded (snd (countTextIn sampleStore shortText))
             = seoAnalyzerLoaded sampleStore"
    using t by blast
  have c1: "fst (countTextIn (snd (countTextIn sampleStore shortText)) shortText)
              = fst (countTextIn sampleStore shortText)"
    using t by blast
  have c2: "fst (countTextIn sampleStore shortText) = countText shortText"
    using t by blast
  have c: "fst (countTextIn (snd (countTextIn sampleStore shortText)) shortText)
             = countText shortText"
    using c1 c2 by (rule trans)
  have w: "words (countText shortText) = 3"
    by (simp add: words_countText shortText_words shortText_nonempty)
  show ?thesis
    by (simp only: a b c w) (simp add: sampleStore_def)
qed

text \<open>
  Claim C10. For the empty string, and for every text whose normalised form is empty,
  all five counts are 0 and yet the reading time is 1; the reading time is never 0.
\<close>

theorem blank_text_stats:
  "countText [] = \<lparr>characters = 0, charactersNoSpaces = 0, words = 0, sentences = 0,
                   paragraphs = 0, readingTimeMin = 1\<rparr> \<and>
   (normalizeText text = [] \<longrightarrow>
      countText text = \<lparr>characters = 0, charactersNoSpaces = 0, words = 0, sentences = 0,
                         paragraphs = 0, readingTimeMin = 1\<rparr>) \<and>
   readingTimeMin (countText text) \<noteq> 0"
proof -
  have "normalizeText [] = []" by (simp add: normalizeText_def trim_def)
  then show ?thesis
    using countText_blank readingTime_ge_1 [of "text"] by auto
qed

theorem blank_text_stats_witness:
  "normalizeText blankText = [] \<and>
   countText blankText = \<lparr>characters = 0, charactersNoSpaces = 0, words = 0, sentences = 0,
                           paragraphs = 0, readingTimeMin = 1\<rparr>"
proof -
  have h: "normalizeText blankText = []"
    by (simp add: blankText_def normalizeText_def trim_def isSpace_def)
  show ?thesis using h blank_text_stats [of blankText] by simp
qed

section \<open>Auxiliary facts about the n-gram extractor\<close>

subsection \<open>Ranking\<close>

lemma filter_take_prefix:
  "filter P (take n xs) = take (length (filter P (take n xs))) (filter P xs)"
proof (induction xs arbitrary: n)
  case Nil
  then show ?case by simp
next
  case (Cons x xs)
  show ?case
  proof (cases n)
    case 0
    then show ?thesis by simp
  next
    case (Suc m)
    with Cons [of m] show ?thesis by auto
  qed
qed

lemma atLeastTwo_value: "atLeastTwo v \<Longrightarrow> v = Num (nat (numberOf v))"
  by (cases v) (auto simp: atLeastTwo_def numberOf_def)

lemma filter_value_key:
  assumes a: "\<forall>e \<in> set ys. atLeastTwo (snd e)" and v: "atLeastTwo v"
  shows "filter (\<lambda>e. snd e = v) ys = filter (\<lambda>e. - numberOf (snd e) = - numberOf v) ys"
proof (rule filter_cong [OF refl])
  fix e assume "e \<in> set ys"
  then have "atLeastTwo (snd e)" using a by simp
  then show "(snd e = v) = (- numberOf (snd e) = - numberOf v)"
    using v atLeastTwo_value by (metis neg_equal_iff_equal)
qed

lemma ranked_stable:
  assumes "\<forall>e \<in> set xs. atLeastTwo (snd e)"
  shows "filter (\<lambda>e. snd e = v) (sort_key (\<lambda>e. - numberOf (snd e)) xs)
         = filter (\<lambda>e. snd e = v) xs"
proof (cases "atLeastTwo v")
  case True
  have s: "\<forall>e \<in> set (sort_key (\<lambda>e. - numberOf (snd e)) xs). atLeastTwo (snd e)"
    using assms by simp
  show ?thesis
    by (simp only: filter_value_key [OF s True] filter_value_key [OF assms True] sort_key_stable)
next
  case False
  then have "\<And>ys :: ('a \<times> jsvalue) list.
      \<forall>e \<in> set ys. atLeastTwo (snd e) \<Longrightarrow> filter (\<lambda>e. snd e = v) ys = []"
    by (auto simp: filter_empty_conv)
  then show ?thesis using assms by simp
qed

lemma count_toEntry: "count (toEntry e) = snd e" and phrase_toEntry: "phrase (toEntry e) = fst e"
  by (cases e, simp add: toEntry_def)+

lemma getTopN_values:
  "e \<in> set (getTopN counts n) \<Longrightarrow> \<exists>c. count e = Num c \<and> 2 \<le> c"
proof -
  assume "e \<in> set (getTopN counts n)"
  then obtain p where p: "e = toEntry p"
    and q: "p \<in> set (take n (sort_key (\<lambda>e. - numberOf (snd e))
            (filter (\<lambda>e. atLeastTwo (snd e)) (objectEntries counts))))"
    by (auto simp: getTopN_def)
  from q have "p \<in> set (sort_key (\<lambda>e. - numberOf (snd e))
            (filter (\<lambda>e. atLeastTwo (snd e)) (objectEntries counts)))"
    by (rule in_set_takeD)
  then have "atLeastTwo (snd p)" by simp
  then show ?thesis
    by (cases "snd p") (auto simp: p count_toEntry atLeastTwo_def)
qed

lemma getTopN_length: "length (getTopN counts n) \<le> n"
  by (simp add: getTopN_def)

lemma getTopN_sorted:
  "sorted_wrt (\<lambda>a b. numberOf (count b) \<le> numberOf (count a)) (getTopN counts n)"
proof -
  let ?f = "\<lambda>e :: jsstring \<times> jsvalue. - numberOf (snd e)"
  let ?xs = "sort_key ?f (filter (\<lambda>e. atLeastTwo (snd e)) (objectEntries counts))"
  have "sorted (map ?f ?xs)" by (rule sorted_sort_key)
  then have "sorted_wrt (\<lambda>a b. ?f a \<le> ?f b) ?xs" by (simp add: sorted_map)
  then have "sorted_wrt (\<lambda>a b. ?f a \<le> ?f b) (take n ?xs)" by (rule sorted_wrt_take)
  then show ?thesis
    by (simp add: getTopN_def sorted_wrt_map count_toEntry)
qed

lemma getTopN_ties:
  "\<exists>k. filter (\<lambda>e. count e = v) (getTopN counts n)
       = take k (filter (\<lambda>e. count e = v) (map toEntry (objectEntries counts)))"
proof -
  let ?f = "\<lambda>e :: jsstring \<times> jsvalue. - numberOf (snd e)"
  let ?ys = "filter (\<lambda>e. atLeastTwo (snd e)) (objectEntries counts)"
  let ?xs = "sort_key ?f ?ys"
  have a: "\<forall>e \<in> set ?ys. atLeastTwo (snd e)" by simp
  have "filter (\<lambda>e. count e = v) (getTopN counts n)
        = map toEntry (filter (\<lambda>e. snd e = v) (take n ?xs))"
    by (simp add: getTopN_def filter_map o_def count_toEntry)
  also have "\<dots> = map toEntry (take (length (filter (\<lambda>e. snd e = v) (take n ?xs)))
                       (filter (\<lambda>e. snd e = v) ?xs))"
    using filter_take_prefix [of "\<lambda>e. snd e = v" n ?xs] by simp
  also have "filter (\<lambda>e. snd e = v) ?xs = filter (\<lambda>e. snd e = v) ?ys"
    using a by (rule ranked_stable)
  finally obtain k where
    k: "filter (\<lambda>e. count e = v) (getTopN counts n)
        = map toEntry (take k (filter (\<lambda>e. snd e = v) ?ys))"
    by blast
  show ?thesis
  proof (cases "atLeastTwo v")
    case True
    then have "filter (\<lambda>e. snd e = v) ?ys = filter (\<lambda>e. snd e = v) (objectEntries counts)"
      by (auto intro: filter_cong)
    then show ?thesis
      using k by (auto simp: filter_map o_def count_toEntry take_map)
  next
    case False
    then have "filter (\<lambda>e. snd e = v) ?ys = []"
      by (auto simp: filter_empty_conv)
    then have "filter (\<lambda>e. count e = v) (getTopN counts n) = []" using k by simp
    then have "filter (\<lambda>e. count e = v) (getTopN counts n)
        = take 0 (filter (\<lambda>e. count e = v) (map toEntry (objectEntries counts)))"
      by simp
    then show ?thesis by blast
  qed
qed

lemma objectEntries_plain:
  assumes "\<forall>key \<in> fst ` set counts. \<not> isArrayIndex key"
  shows "objectEntries counts = counts"
proof -
  have "filter (\<lambda>e. isArrayIndex (fst e)) counts = []"
    using assms by (auto simp: filter_empty_conv)
  moreover have "filter (\<lambda>e. \<not> isArrayIndex (fst e)) counts = counts"
    using assms by (auto simp: filter_id_conv)
  ultimately show ?thesis by (simp add: objectEntries_def)
qed

subsection \<open>Tokens\<close>

lemma tokenAt_chars:
  assumes "tokenAt s = Some (tok, rest)"
  shows "tok \<noteq> [] \<and> list_all isTokenChar tok"
proof -
  from assms obtain c cs where s: "s = c # cs" and c: "isAlnum c"
    and tok: "tok = c # rev (dropWhile (\<lambda>d. \<not> isAlnum d) (rev (takeWhile isTokenChar cs)))"
    by (cases s) (auto simp: tokenAt_def Let_def split: if_splits)
  have "set (dropWhile (\<lambda>d. \<not> isAlnum d) (rev (takeWhile isTokenChar cs)))
        \<subseteq> set (rev (takeWhile isTokenChar cs))"
    by (rule set_dropWhileD [THEN subsetI])
  moreover have "\<forall>d \<in> set (takeWhile isTokenChar cs). isTokenChar d"
    by (auto dest: set_takeWhileD)
  ultimately have "\<forall>d \<in> set (rev (dropWhile (\<lambda>d. \<not> isAlnum d) (rev (takeWhile isTokenChar cs)))).
      isTokenChar d"
    by auto
  then show ?thesis using c by (simp add: tok isTokenChar_def list_all_iff)
qed

lemma tokens_chars: "t \<in> set (tokens s) \<Longrightarrow> t \<noteq> [] \<and> list_all isTokenChar t"
proof (induction s rule: tokens.induct)
  case 1
  then show ?case by simp
next
  case (2 c cs)
  show ?case
  proof (cases "tokenAt (c # cs)")
    case None
    with 2 show ?thesis by simp
  next
    case (Some a)
    obtain tok rest where a: "a = (tok, rest)" by (cases a)
    with 2 Some tokenAt_chars [of "c # cs" tok rest] show ?thesis by auto
  qed
qed

lemma tokenizeWords_chars:
  "t \<in> set (tokenizeWords body) \<Longrightarrow> t \<noteq> [] \<and> list_all isTokenChar t"
  using tokens_chars [of t "toLowerCase body"]
  by (auto simp: tokenizeWords_def matchTokens_def orEmpty_def Let_def split: if_splits)

lemma isTokenChar_not_space: "isTokenChar c \<Longrightarrow> c \<noteq> 0x20"
  by (auto simp: isTokenChar_def isAlnum_def isLower_def)

lemma isTokenChar_not_underscore: "isTokenChar c \<Longrightarrow> c \<noteq> 0x5F"
  by (auto simp: isTokenChar_def isAlnum_def isLower_def)

lemma isTokenChar_not_upper: "isTokenChar c \<Longrightarrow> \<not> (0x41 \<le> c \<and> c \<le> 0x5A)"
  by (auto simp: isTokenChar_def isAlnum_def isLower_def word_le_nat_alt)

subsection \<open>Joining and splitting\<close>

lemma splitSpace_plain: "0x20 \<notin> set t \<Longrightarrow> splitSpace cur t = [cur @ t]"
  by (induction t arbitrary: cur) auto

lemma splitSpace_append:
  "0x20 \<notin> set t \<Longrightarrow> splitSpace cur (t @ 0x20 # rest) = (cur @ t) # splitSpace [] rest"
  by (induction t arbitrary: cur) auto

lemma splitSpace_joinSpace:
  assumes "ws \<noteq> []" and "\<forall>w \<in> set ws. 0x20 \<notin> set w"
  shows "splitSpace [] (joinSpace ws) = ws"
  using assms
proof (induction ws rule: joinSpace.induct)
  case 1
  then show ?case by simp
next
  case (2 w)
  then show ?case by (simp add: splitSpace_plain)
next
  case (3 w v vs)
  then show ?case by (simp add: splitSpace_append)
qed

lemma joinSpace_has_space: "2 \<le> length ws \<Longrightarrow> 0x20 \<in> set (joinSpace ws)"
  by (induction ws rule: joinSpace.induct) auto

subsection \<open>The frequency table\<close>

lemma map_of_setProperty: "map_of (setProperty ps key v) = (map_of ps)(key \<mapsto> v)"
  by (induction ps key v rule: setProperty.induct) (auto simp: fun_eq_iff)

lemma map_of_increment:
  "map_of (increment counts g) g' = (if g' = g then bump g (map_of counts g) else map_of counts g')"
  by (auto simp: increment_def bump_def map_of_setProperty split: option.splits jsvalue.splits)

lemma map_of_foldl_increment:
  "map_of (foldl increment counts gs) g = ((bump g) ^^ count_list gs g) (map_of counts g)"
proof (induction gs arbitrary: counts)
  case Nil
  then show ?case by simp
next
  case (Cons x xs)
  show ?case
    by (simp add: Cons map_of_increment funpow_swap1)
qed

lemma bump_Num: "bump g (Some (Num k)) = Some (Num (k + 1))"
  by (simp add: bump_def)

lemma bump_Some_Str: "bump g (Some Str) = Some Str"
  by (simp add: bump_def)

lemma bump_plain_Num:
  "((bump g) ^^ k) (Some (Num j)) = Some (Num (j + k))"
  by (induction k) (simp_all add: bump_Num)

lemma bump_Str: "((bump g) ^^ k) (Some Str) = Some Str"
  by (induction k) (simp_all add: bump_Some_Str)

lemma bump_plain:
  assumes "\<not> inherited g"
  shows "((bump g) ^^ k) None = (if k = 0 then None else Some (Num k))"
proof (cases k)
  case 0
  then show ?thesis by simp
next
  case (Suc m)
  have "g \<noteq> utf16 ''__proto__''" using assms by (auto simp: inherited_def)
  then have "bump g None = Some (Num 1)" using assms by (simp add: bump_def)
  then show ?thesis by (simp add: Suc funpow_swap1 bump_plain_Num)
qed

lemma bump_inherited:
  assumes "inherited g" and "g \<noteq> utf16 ''__proto__''"
  shows "((bump g) ^^ k) None = (if k = 0 then None else Some Str)"
proof (cases k)
  case 0
  then show ?thesis by simp
next
  case (Suc m)
  have "bump g None = Some Str" using assms by (simp add: bump_def)
  then show ?thesis by (simp add: Suc funpow_swap1 bump_Str)
qed

lemma foldl_skip:
  "foldl (\<lambda>a i. if P i then a else f a (g i)) a xs = foldl f a (map g (filter (\<lambda>i. \<not> P i) xs))"
  by (induction xs arbitrary: a) auto

lemma buildNgramCounts_grams:
  "buildNgramCounts ws n stops
   = foldl increment [] (filter (\<lambda>g. \<not> skipped stops n g) (map joinSpace (windows n ws)))"
proof -
  have "ngramStep ws n stops
        = (\<lambda>a i. if skipped stops n (joinSpace (take n (drop i ws))) then a
                  else increment a (joinSpace (take n (drop i ws))))"
    by (simp add: ngramStep_def skipped_def fun_eq_iff Let_def)
  then show ?thesis
    using foldl_skip [of "\<lambda>i. skipped stops n (joinSpace (take n (drop i ws)))" increment
        "\<lambda>i. joinSpace (take n (drop i ws))" "[]" "[0 ..< Suc (length ws) - n]"]
    by (simp add: buildNgramCounts_def windows_def filter_map o_def)
qed


lemma inherited_token:
  "inherited g \<Longrightarrow> list_all isTokenChar g \<Longrightarrow> g = utf16 ''constructor''"
  by (auto simp: inherited_def utf16_def isTokenChar_def isAlnum_def isLower_def)

lemma inherited_no_space: "inherited g \<Longrightarrow> 0x20 \<notin> set g"
  by (auto simp: inherited_def utf16_def)

lemma inherited_constructor: "inherited (utf16 ''constructor'')"
  by (simp add: inherited_def)

lemma constructor_not_proto: "utf16 ''constructor'' \<noteq> utf16 ''__proto__''"
  by (simp add: utf16_def)

lemma windows_one: "map joinSpace (windows 1 ws) = ws"
proof -
  have "\<And>i. i < length ws \<Longrightarrow> joinSpace (take 1 (drop i ws)) = ws ! i"
  proof -
    fix i assume "i < length ws"
    then have "drop i ws = ws ! i # drop (Suc i) ws" by (simp add: Cons_nth_drop_Suc)
    then show "joinSpace (take 1 (drop i ws)) = ws ! i" by simp
  qed
  then have "map joinSpace (windows 1 ws) = map (\<lambda>i. ws ! i) [0 ..< length ws]"
    by (simp add: windows_def)
  then show ?thesis by (simp add: map_nth)
qed

lemma window_length: "w \<in> set (windows n ws) \<Longrightarrow> length w = n \<and> set w \<subseteq> set ws"
  by (auto simp: windows_def dest: in_set_takeD in_set_dropD)

lemma unigram_table:
  fixes body :: jsstring
  defines "content \<equiv> filter (\<lambda>w. w \<notin> stopWords \<and> 1 < length w) (tokenizeWords body)"
  shows "map_of (unigramCounts body) g =
     (if g \<in> set content
      then Some (if g = utf16 ''constructor'' then Str else Num (count_list content g))
      else None)"
proof -
  have f: "\<And>xs. filter (\<lambda>g. \<not> skipped None 1 g) xs = xs"
    by (simp add: skipped_def)
  have "unigramCounts body = foldl increment [] content"
    by (simp only: unigramCounts_def buildNgramCounts_grams content_def f windows_one)
  then have m: "map_of (unigramCounts body) g = ((bump g) ^^ count_list content g) None"
    by (simp add: map_of_foldl_increment)
  show ?thesis
  proof (cases "g \<in> set content")
    case False
    then show ?thesis by (simp add: m)
  next
    case True
    then have k: "count_list content g \<noteq> 0" by (simp add: count_list_0_iff)
    from True have "g \<in> set (tokenizeWords body)" by (simp add: content_def)
    then have tc: "list_all isTokenChar g" by (simp add: tokenizeWords_chars)
    show ?thesis
    proof (cases "inherited g")
      case True
      then have g: "g = utf16 ''constructor''" using tc by (rule inherited_token)
      then have "g \<noteq> utf16 ''__proto__''" by (simp add: constructor_not_proto)
      with True k have "((bump g) ^^ count_list content g) None = Some Str"
        by (simp add: bump_inherited)
      with \<open>g \<in> set content\<close> g m show ?thesis by simp
    next
      case False
      then have "g \<noteq> utf16 ''constructor''" using inherited_constructor by auto
      moreover from False k have "((bump g) ^^ count_list content g) None
          = Some (Num (count_list content g))"
        by (simp add: bump_plain)
      ultimately show ?thesis using \<open>g \<in> set content\<close> m by simp
    qed
  qed
qed

lemma ngram_table:
  fixes ws :: "jsstring list" and sw :: "jsstring set" and n :: nat
  assumes n: "2 \<le> n" and ws: "\<forall>w \<in> set ws. 0x20 \<notin> set w"
  defines "kept \<equiv> filter (\<lambda>w. \<not> list_all (\<lambda>x. x \<in> sw) w) (windows n ws)"
  shows "map_of (buildNgramCounts ws n (Some sw)) g =
     (if g \<in> joinSpace ` set kept then Some (Num (count_list (map joinSpace kept) g)) else None)"
proof -
  have sk: "\<And>w. w \<in> set (windows n ws) \<Longrightarrow>
      skipped (Some sw) n (joinSpace w) = list_all (\<lambda>x. x \<in> sw) w"
  proof -
    fix w assume w: "w \<in> set (windows n ws)"
    then have "w \<noteq> []" "\<forall>t \<in> set w. 0x20 \<notin> set t"
      using window_length [OF w] n ws by auto
    then have "splitSpace [] (joinSpace w) = w" by (rule splitSpace_joinSpace)
    then show "skipped (Some sw) n (joinSpace w) = list_all (\<lambda>x. x \<in> sw) w"
      using n by (simp add: skipped_def)
  qed
  have "filter (\<lambda>g. \<not> skipped (Some sw) n g) (map joinSpace (windows n ws))
        = map joinSpace (filter (\<lambda>w. \<not> skipped (Some sw) n (joinSpace w)) (windows n ws))"
    by (simp add: filter_map o_def)
  also have "filter (\<lambda>w. \<not> skipped (Some sw) n (joinSpace w)) (windows n ws) = kept"
    unfolding kept_def by (rule filter_cong) (auto simp: sk)
  finally have "buildNgramCounts ws n (Some sw) = foldl increment [] (map joinSpace kept)"
    by (simp add: buildNgramCounts_grams)
  then have m: "map_of (buildNgramCounts ws n (Some sw)) g
      = ((bump g) ^^ count_list (map joinSpace kept) g) None"
    by (simp add: map_of_foldl_increment)
  show ?thesis
  proof (cases "g \<in> joinSpace ` set kept")
    case False
    then have "count_list (map joinSpace kept) g = 0" by (simp add: count_list_0_iff)
    with False show ?thesis by (simp add: m)
  next
    case True
    then obtain w where w: "w \<in> set (windows n ws)" and g: "g = joinSpace w"
      by (auto simp: kept_def)
    have "2 \<le> length w" using window_length [OF w] n by simp
    then have "0x20 \<in> set g" unfolding g by (rule joinSpace_has_space)
    then have ni: "\<not> inherited g" using inherited_no_space by auto
    have "count_list (map joinSpace kept) g \<noteq> 0" using True by (simp add: count_list_0_iff)
    with ni True show ?thesis by (simp add: m bump_plain)
  qed
qed

lemma tokens_no_space:
  "\<forall>w \<in> set (filter (\<lambda>w. 1 < length w) (tokenizeWords body)). 0x20 \<notin> set w"
proof
  fix w assume "w \<in> set (filter (\<lambda>w. 1 < length w) (tokenizeWords body))"
  then have "list_all isTokenChar w" using tokenizeWords_chars [of w body] by simp
  then show "0x20 \<notin> set w" by (auto simp: list_all_iff dest: isTokenChar_not_space)
qed

lemma on_the_skipped: "skipped (Some stopWords) 2 (utf16 ''on the'')"
  by (simp add: skipped_def utf16_def stopWords_def)

lemma on_the_absent: "map_of (buildNgramCounts ws 2 (Some stopWords)) (utf16 ''on the'') = None"
proof -
  have "utf16 ''on the'' \<notin> set (filter (\<lambda>g. \<not> skipped (Some stopWords) 2 g)
          (map joinSpace (windows 2 ws)))"
    using on_the_skipped by simp
  then have "count_list (filter (\<lambda>g. \<not> skipped (Some stopWords) 2 g)
          (map joinSpace (windows 2 ws))) (utf16 ''on the'') = 0"
    by (metis count_list_0_iff)
  then show ?thesis
    by (simp add: buildNgramCounts_grams map_of_foldl_increment)
qed

lemma numbersText_tokens:
  "tokenizeWords numbersText = map utf16 [''seo'', ''tips'', ''10'', ''seo'', ''tips'', ''10'']"
  by (simp add: tokenizeWords_def numbersText_def utf16_def toLowerCase_def lowerUnit_def
      matchTokens_def orEmpty_def tokenAt_def isAlnum_def isTokenChar_def isLower_def Let_def)

lemma numbersText_counts:
  "unigramCounts numbersText
   = [(utf16 ''seo'', Num 2), (utf16 ''tips'', Num 2), (utf16 ''10'', Num 2)]"
  unfolding unigramCounts_def numbersText_tokens
  by (simp add: stopWords_def utf16_def buildNgramCounts_def ngramStep_def increment_def
      inherited_def upt_rec)

lemma catText_tokens:
  "tokenizeWords catText = map utf16 [''the'', ''cat'', ''sat'', ''on'', ''the'', ''mat'',
     ''the'', ''cat'', ''sat'', ''on'', ''the'', ''mat'']"
  by (simp add: tokenizeWords_def catText_def utf16_def toLowerCase_def lowerUnit_def
      matchTokens_def orEmpty_def tokenAt_def isAlnum_def isTokenChar_def isLower_def Let_def)

lemma catText_bigrams:
  "bigramCounts catText
   = [(utf16 ''the cat'', Num 2), (utf16 ''cat sat'', Num 2), (utf16 ''sat on'', Num 2),
      (utf16 ''the mat'', Num 2), (utf16 ''mat the'', Num 1)]"
  unfolding bigramCounts_def catText_tokens
  by (simp add: stopWords_def utf16_def buildNgramCounts_def ngramStep_def increment_def
      inherited_def upt_rec)

lemma catText_unigrams:
  "unigramCounts catText = [(utf16 ''cat'', Num 2), (utf16 ''sat'', Num 2), (utf16 ''mat'', Num 2)]"
  unfolding unigramCounts_def catText_tokens
  by (simp add: stopWords_def utf16_def buildNgramCounts_def ngramStep_def increment_def
      inherited_def upt_rec)

section \<open>Properties of the n-gram extractor\<close>

text \<open>
  Claim C3, as the code has it. For every frequency table and every requested number
  \<open>n\<close>, every entry of \<open>getTopN(counts, n)\<close> has a count of at least 2, there are at
  most \<open>n\<close> entries, the counts do not increase along the result, and entries of equal
  count keep the relative order in which \<open>Object.entries(counts)\<close> lists them: the
  entries of one count are a prefix of the entries of that count there. That order is
  the order of first occurrence whenever no key is an array index.
\<close>

theorem getTopN_ranking:
  "(\<forall>e \<in> set (getTopN counts n). \<exists>c. count e = Num c \<and> 2 \<le> c) \<and>
   length (getTopN counts n) \<le> n \<and>
   sorted_wrt (\<lambda>a b. numberOf (count b) \<le> numberOf (count a)) (getTopN counts n) \<and>
   (\<forall>v. \<exists>k. filter (\<lambda>e. count e = v) (getTopN counts n)
            = take k (filter (\<lambda>e. count e = v) (map toEntry (objectEntries counts)))) \<and>
   ((\<forall>key \<in> fst ` set counts. \<not> isArrayIndex key) \<longrightarrow> objectEntries counts = counts)"
  using getTopN_values [of _ counts n] getTopN_length [of counts n] getTopN_sorted [of counts n]
    getTopN_ties [of _ counts n] objectEntries_plain [of counts]
  by blast

theorem getTopN_ranking_witness:
  "list_all (\<lambda>key. \<not> isArrayIndex key) (map fst sampleCounts) \<and>
   objectEntries sampleCounts = sampleCounts \<and>
   length (getTopN sampleCounts 3) \<le> 3 \<and>
   getTopN sampleCounts 3
     = [\<lparr>phrase = utf16 ''rank'', count = Num 3\<rparr>, \<lparr>phrase = utf16 ''page'', count = Num 2\<rparr>,
        \<lparr>phrase = utf16 ''site'', count = Num 2\<rparr>]"
proof -
  have h: "list_all (\<lambda>key. \<not> isArrayIndex key) (map fst sampleCounts)"
    by (simp add: sampleCounts_def utf16_def isArrayIndex_def isDigit_def)
  then have "\<forall>key \<in> fst ` set sampleCounts. \<not> isArrayIndex key"
    by (simp add: list_all_iff)
  then have e: "objectEntries sampleCounts = sampleCounts"
    using getTopN_ranking [of sampleCounts 3] by blast
  have "getTopN sampleCounts 3
     = [\<lparr>phrase = utf16 ''rank'', count = Num 3\<rparr>, \<lparr>phrase = utf16 ''page'', count = Num 2\<rparr>,
        \<lparr>phrase = utf16 ''site'', count = Num 2\<rparr>]"
    unfolding getTopN_def e
    by (simp add: sampleCounts_def atLeastTwo_def numberOf_def toEntry_def)
  with h e show ?thesis by simp
qed

text \<open>
  The claim as stated fails for keys that are array indices: in this text "seo" and
  "tips" are seen before "10", all three occur twice, and "10" is ranked first.
\<close>

theorem getTopN_order_counterexample:
  "unigramCounts numbersText
     = [(utf16 ''seo'', Num 2), (utf16 ''tips'', Num 2), (utf16 ''10'', Num 2)] \<and>
   getTopN (unigramCounts numbersText) 15
     = [\<lparr>phrase = utf16 ''10'', count = Num 2\<rparr>, \<lparr>phrase = utf16 ''seo'', count = Num 2\<rparr>,
        \<lparr>phrase = utf16 ''tips'', count = Num 2\<rparr>]"
  unfolding numbersText_counts
  by (simp add: getTopN_def objectEntries_def isArrayIndex_def isDigit_def digitsValue_def
      utf16_def atLeastTwo_def numberOf_def toEntry_def)

text \<open>
  Claim C4. The unigram table is built from the tokens that are neither stop words nor
  single characters, and from nothing else: every such token is a key, with the number
  of its occurrences (the key "constructor" meets an inherited property and holds a
  string instead). The bigram and trigram tables are built over the windows of all
  tokens longer than one character, stop words included, and a window is left out if
  and only if every one of its words is a stop word: the keys are the phrases of the
  other windows, each with the number of those windows. So "on the" is never a key of
  the bigram table, and every window with a word that is not a stop word is.
\<close>

theorem ngram_tables:
  "let allWords = tokenizeWords body;
       content = filter (\<lambda>w. w \<notin> stopWords \<and> 1 < length w) allWords;
       long = filter (\<lambda>w. 1 < length w) allWords;
       kept = (\<lambda>n. filter (\<lambda>w. \<not> list_all (\<lambda>x. x \<in> stopWords) w) (windows n long))
   in (\<forall>g. map_of (unigramCounts body) g =
            (if g \<in> set content
             then Some (if g = utf16 ''constructor'' then Str else Num (count_list content g))
             else None)) \<and>
      (\<forall>g. map_of (bigramCounts body) g =
            (if g \<in> joinSpace ` set (kept 2)
             then Some (Num (count_list (map joinSpace (kept 2)) g)) else None)) \<and>
      (\<forall>g. map_of (trigramCounts body) g =
            (if g \<in> joinSpace ` set (kept 3)
             then Some (Num (count_list (map joinSpace (kept 3)) g)) else None)) \<and>
      map_of (bigramCounts body) (utf16 ''on the'') = None \<and>
      (\<forall>w \<in> set (windows 2 long).
          (\<exists>x \<in> set w. x \<notin> stopWords) \<longrightarrow> map_of (bigramCounts body) (joinSpace w) \<noteq> None)"
proof -
  define long where "long = filter (\<lambda>w. 1 < length w) (tokenizeWords body)"
  have sp: "\<forall>w \<in> set long. 0x20 \<notin> set w"
    unfolding long_def by (rule tokens_no_space)
  have two: "\<And>g. map_of (bigramCounts body) g =
      (if g \<in> joinSpace ` set (filter (\<lambda>w. \<not> list_all (\<lambda>x. x \<in> stopWords) w) (windows 2 long))
       then Some (Num (count_list (map joinSpace
              (filter (\<lambda>w. \<not> list_all (\<lambda>x. x \<in> stopWords) w) (windows 2 long))) g))
       else None)"
    unfolding bigramCounts_def long_def [symmetric]
    by (rule ngram_table [OF _ sp]) simp
  have three: "\<And>g. map_of (trigramCounts body) g =
      (if g \<in> joinSpace ` set (filter (\<lambda>w. \<not> list_all (\<lambda>x. x \<in> stopWords) w) (windows 3 long))
       then Some (Num (count_list (map joinSpace
              (filter (\<lambda>w. \<not> list_all (\<lambda>x. x \<in> stopWords) w) (windows 3 long))) g))
       else None)"
    unfolding trigramCounts_def long_def [symmetric]
    by (rule ngram_table [OF _ sp]) simp
  have on_the: "map_of (bigramCounts body) (utf16 ''on the'') = None"
    by (simp add: bigramCounts_def on_the_absent)
  have kept: "\<forall>w \<in> set (windows 2 long).
      (\<exists>x \<in> set w. x \<notin> stopWords) \<longrightarrow> map_of (bigramCounts body) (joinSpace w) \<noteq> None"
    by (auto simp: two list_all_iff)
  show ?thesis
    unfolding Let_def long_def [symmetric]
    using unigram_table [of body] two three on_the kept by blast
qed

theorem ngram_tables_witness:
  "map_of (bigramCounts catText) (utf16 ''on the'') = None \<and>
   map_of (bigramCounts catText) (utf16 ''cat sat'') = Some (Num 2) \<and>
   map_of (bigramCounts catText) (utf16 ''the cat'') = Some (Num 2) \<and>
   map_of (unigramCounts catText) (utf16 ''the'') = None \<and>
   map_of (unigramCounts catText) (utf16 ''cat'') = Some (Num 2)"
proof -
  have "map_of (bigramCounts catText) (utf16 ''on the'') = None"
    using ngram_tables [of catText] unfolding Let_def by (elim conjE)
  then show ?thesis
    by (simp add: catText_bigrams catText_unigrams utf16_def)
qed

end
